theory Spec2Isabelle
  imports Complex_Main
begin

section \<open>JavaScript numbers and values\<close>

text \<open>
  The analysis script computes with JavaScript numbers.  A number is modelled as a real
  number or one of the three special values of the language: \<open>Infinity\<close>,
  \<open>-Infinity\<close> and \<open>NaN\<close>.  The arithmetic on finite values in this section is exact;
  the special values follow the rules of the language: a division by zero gives an
  infinity or \<open>NaN\<close>, never an exception, and \<open>NaN\<close> is absorbing.  Overflow and
  underflow of the 64-bit format are modelled in the section on the range of the format
  below, where the functions whose results depend on them are stated again over rounded
  operations.  The sign of a zero is not tracked: every zero divisor that the code below
  can produce is a positive zero (a length, the square of a number, a square root), so a
  positive numerator over zero is \<open>Infinity\<close>.
\<close>

datatype jsnum = Fin real | PInf | NInf | NaN

text \<open>
  An array element or a record field typed \<open>number | null\<close>; reading an array outside
  its bounds gives \<open>undefined\<close>.
\<close>

datatype jsval = Undefined | Null | Num jsnum

text \<open>\<open>ToNumber\<close>, applied by every arithmetic operator to its operands.\<close>

fun toNumber :: "jsval \<Rightarrow> jsnum" where
  "toNumber Undefined = NaN"
| "toNumber Null = Fin 0"
| "toNumber (Num x) = x"

fun isNegative :: "jsnum \<Rightarrow> bool" where
  "isNegative (Fin a) = (a < 0)"
| "isNegative NInf = True"
| "isNegative PInf = False"
| "isNegative NaN = False"

fun jsNeg :: "jsnum \<Rightarrow> jsnum" where
  "jsNeg (Fin a) = Fin (- a)"
| "jsNeg PInf = NInf"
| "jsNeg NInf = PInf"
| "jsNeg NaN = NaN"

fun jsAdd :: "jsnum \<Rightarrow> jsnum \<Rightarrow> jsnum" where
  "jsAdd (Fin a) (Fin b) = Fin (a + b)"
| "jsAdd NaN y = NaN"
| "jsAdd x NaN = NaN"
| "jsAdd PInf NInf = NaN"
| "jsAdd NInf PInf = NaN"
| "jsAdd PInf y = PInf"
| "jsAdd x PInf = PInf"
| "jsAdd NInf y = NInf"
| "jsAdd x NInf = NInf"

definition jsSub :: "jsnum \<Rightarrow> jsnum \<Rightarrow> jsnum" where
  "jsSub x y = jsAdd x (jsNeg y)"

fun jsMul :: "jsnum \<Rightarrow> jsnum \<Rightarrow> jsnum" where
  "jsMul (Fin a) (Fin b) = Fin (a * b)"
| "jsMul NaN y = NaN"
| "jsMul x NaN = NaN"
| "jsMul x y =
     (if x = Fin 0 \<or> y = Fin 0 then NaN
      else if isNegative x = isNegative y then PInf else NInf)"

fun jsDiv :: "jsnum \<Rightarrow> jsnum \<Rightarrow> jsnum" where
  "jsDiv (Fin a) (Fin b) =
     (if b = 0 then (if a = 0 then NaN else if 0 < a then PInf else NInf)
      else Fin (a / b))"
| "jsDiv NaN y = NaN"
| "jsDiv x NaN = NaN"
| "jsDiv (Fin a) y = Fin 0"
| "jsDiv x (Fin b) = (if isNegative x = (b < 0) then PInf else NInf)"
| "jsDiv x y = NaN"

text \<open>\<open>Math.pow(x, 2)\<close>, \<open>Math.sqrt\<close>, \<open>Math.exp\<close>, \<open>Math.abs\<close>, \<open>Math.ceil\<close>.\<close>

definition Math_pow2 :: "jsnum \<Rightarrow> jsnum" where
  "Math_pow2 x = jsMul x x"

fun Math_sqrt :: "jsnum \<Rightarrow> jsnum" where
  "Math_sqrt (Fin a) = (if a < 0 then NaN else Fin (sqrt a))"
| "Math_sqrt PInf = PInf"
| "Math_sqrt NInf = NaN"
| "Math_sqrt NaN = NaN"

fun Math_exp :: "jsnum \<Rightarrow> jsnum" where
  "Math_exp (Fin a) = Fin (exp a)"
| "Math_exp PInf = PInf"
| "Math_exp NInf = Fin 0"
| "Math_exp NaN = NaN"

fun Math_abs :: "jsnum \<Rightarrow> jsnum" where
  "Math_abs (Fin a) = Fin \<bar>a\<bar>"
| "Math_abs PInf = PInf"
| "Math_abs NInf = PInf"
| "Math_abs NaN = NaN"

fun Math_ceil :: "jsnum \<Rightarrow> jsnum" where
  "Math_ceil (Fin a) = Fin (of_int \<lceil>a\<rceil>)"
| "Math_ceil x = x"

text \<open>The comparison \<open>x < y\<close>; every comparison with \<open>NaN\<close> is false.\<close>

fun jsLt :: "jsnum \<Rightarrow> jsnum \<Rightarrow> bool" where
  "jsLt (Fin a) (Fin b) = (a < b)"
| "jsLt NaN y = False"
| "jsLt x NaN = False"
| "jsLt x NInf = False"
| "jsLt PInf y = False"
| "jsLt x y = True"

definition jsGt :: "jsnum \<Rightarrow> jsnum \<Rightarrow> bool" where
  "jsGt x y = jsLt y x"

text \<open>\<open>xs[i]\<close>: \<open>undefined\<close> outside the bounds of the array.\<close>

definition jsAt :: "jsval list \<Rightarrow> nat \<Rightarrow> jsval" where
  "jsAt xs i = (if i < length xs then xs ! i else Undefined)"

subsection \<open>Sorting with a comparator\<close>

text \<open>
  \<open>Array.prototype.sort(cmp)\<close> is a stable sort; a comparator result that is \<open>NaN\<close>
  counts as zero.  For a consistent comparator the result is the one stable arrangement
  in which no element is followed by one that compares smaller, and this is what
  insertion from the right computes.  When the comparator is not consistent (here: when
  \<open>NaN\<close> is among the values) the language leaves the order to the implementation; no
  statement below depends on the order in that case.
\<close>

fun insertBy :: "('a \<Rightarrow> 'a \<Rightarrow> jsnum) \<Rightarrow> 'a \<Rightarrow> 'a list \<Rightarrow> 'a list" where
  "insertBy cmp x [] = [x]"
| "insertBy cmp x (y # ys) =
     (if jsGt (cmp x y) (Fin 0) then y # insertBy cmp x ys else x # y # ys)"

definition jsSort :: "('a \<Rightarrow> 'a \<Rightarrow> jsnum) \<Rightarrow> 'a list \<Rightarrow> 'a list" where
  "jsSort cmp xs = foldr (insertBy cmp) xs []"

text \<open>An array of finite numbers.\<close>

definition numbers :: "real list \<Rightarrow> jsval list" where
  "numbers xs = map (\<lambda>x. Num (Fin x)) xs"

section \<open>Descriptive statistics\<close>

text \<open>
  The summary returned by \<open>calculateStats\<close> of the analysis script.  The fields carry
  the prefix \<open>s_\<close> (the source calls them \<open>n\<close>, \<open>mean\<close>, \<open>std\<close>, \<open>median\<close>, \<open>min\<close>,
  \<open>max\<close>, \<open>q1\<close>, \<open>q3\<close>, \<open>iqr\<close>, \<open>cv\<close>, \<open>se\<close>, \<open>ci95Lower\<close>, \<open>ci95Upper\<close>).  The
  fields read from the sorted array hold whatever the array holds, so they can be
  \<open>null\<close> when the caller passes \<open>null\<close> elements.
\<close>

record Stats =
  s_n :: nat
  s_mean :: jsnum
  s_std :: jsnum
  s_median :: jsval
  s_min :: jsval
  s_max :: jsval
  s_q1 :: jsval
  s_q3 :: jsval
  s_iqr :: jsnum
  s_cv :: jsnum
  s_se :: jsnum
  s_ci95Lower :: jsnum
  s_ci95Upper :: jsnum

text \<open>\<open>values.reduce((a, b) => a + b, 0)\<close>\<close>

definition sumValues :: "jsval list \<Rightarrow> jsnum" where
  "sumValues values = foldl (\<lambda>a b. jsAdd a (toNumber b)) (Fin 0) values"

text \<open>\<open>values.reduce((sum, val) => sum + Math.pow(val - mean, 2), 0)\<close>\<close>

definition sumSquares :: "jsnum \<Rightarrow> jsval list \<Rightarrow> jsnum" where
  "sumSquares mean values =
     foldl (\<lambda>sum val. jsAdd sum (Math_pow2 (jsSub (toNumber val) mean))) (Fin 0) values"

text \<open>\<open>[...values].sort((a, b) => a - b)\<close>\<close>

definition sortValues :: "jsval list \<Rightarrow> jsval list" where
  "sortValues values = jsSort (\<lambda>a b. jsSub (toNumber a) (toNumber b)) values"

definition calculateStats :: "jsval list \<Rightarrow> Stats" where
  "calculateStats values =
     (let n = length values in
      if n = 0 then
        \<lparr>s_n = 0, s_mean = Fin 0, s_std = Fin 0, s_median = Num (Fin 0),
         s_min = Num (Fin 0), s_max = Num (Fin 0), s_q1 = Num (Fin 0), s_q3 = Num (Fin 0),
         s_iqr = Fin 0, s_cv = Fin 0, s_se = Fin 0, s_ci95Lower = Fin 0,
         s_ci95Upper = Fin 0\<rparr>
      else
        let sorted = sortValues values;
            mean = jsDiv (sumValues values) (Fin (real n));
            variance = (if n > 1 then jsDiv (sumSquares mean values) (Fin (real n - 1))
                        else Fin 0);
            std = Math_sqrt variance;
            median = (if n mod 2 = 0
                      then Num (jsDiv (jsAdd (toNumber (jsAt sorted (n div 2 - 1)))
                                             (toNumber (jsAt sorted (n div 2)))) (Fin 2))
                      else jsAt sorted (nat \<lfloor>real n / 2\<rfloor>));
            q1Index = nat \<lfloor>real n * 0.25\<rfloor>;
            q3Index = nat \<lfloor>real n * 0.75\<rfloor>;
            q1 = jsAt sorted q1Index;
            q3 = jsAt sorted q3Index;
            iqr = jsSub (toNumber q3) (toNumber q1);
            cv = (if jsGt mean (Fin 0) then jsMul (jsDiv std mean) (Fin 100) else Fin 0);
            se = jsDiv std (Math_sqrt (Fin (real n)));
            ci95Lower = jsSub mean (jsMul (Fin 1.96) se);
            ci95Upper = jsAdd mean (jsMul (Fin 1.96) se)
        in \<lparr>s_n = n, s_mean = mean, s_std = std, s_median = median,
            s_min = jsAt sorted 0, s_max = jsAt sorted (n - 1), s_q1 = q1, s_q3 = q3,
            s_iqr = iqr, s_cv = cv, s_se = se, s_ci95Lower = ci95Lower,
            s_ci95Upper = ci95Upper\<rparr>)"

section \<open>Sample size, Welch's t-test and the normal distribution\<close>

definition calculateRequiredSampleSize :: "jsnum \<Rightarrow> jsnum \<Rightarrow> jsnum" where
  "calculateRequiredSampleSize std minDetectableDiff =
     (let zAlpha = Fin 1.96;
          zBeta = Fin 0.84;
          n = jsDiv (jsMul (jsMul (Fin 2) (Math_pow2 (jsAdd zAlpha zBeta))) (Math_pow2 std))
                    (Math_pow2 minDetectableDiff)
      in Math_ceil n)"

definition normalCDF :: "jsnum \<Rightarrow> jsnum" where
  "normalCDF x0 =
     (let a1 = Fin 0.254829592;
          a2 = Fin (- 0.284496736);
          a3 = Fin 1.421413741;
          a4 = Fin (- 1.453152027);
          a5 = Fin 1.061405429;
          p = Fin 0.3275911;
          sign = (if jsLt x0 (Fin 0) then Fin (- 1) else Fin 1);
          x = jsDiv (Math_abs x0) (Math_sqrt (Fin 2));
          t = jsDiv (Fin 1) (jsAdd (Fin 1) (jsMul p x));
          y = jsSub (Fin 1)
                (jsMul
                  (jsMul
                    (jsAdd (jsMul (jsAdd (jsMul (jsAdd (jsMul (jsAdd (jsMul a5 t) a4) t) a3) t)
                       a2) t) a1)
                    t)
                  (Math_exp (jsMul (jsNeg x) x)))
      in jsMul (Fin 0.5) (jsAdd (Fin 1) (jsMul sign y)))"

text \<open>The result of \<open>welchTTest\<close>; the source calls the fields \<open>t\<close>, \<open>df\<close>, \<open>pValue\<close>.\<close>

record WelchResult =
  w_t :: jsnum
  w_df :: jsnum
  w_pValue :: jsnum

definition welchTTest :: "jsval list \<Rightarrow> jsval list \<Rightarrow> WelchResult" where
  "welchTTest group1 group2 =
     (let n1 = Fin (real (length group1));
          n2 = Fin (real (length group2));
          mean1 = jsDiv (sumValues group1) n1;
          mean2 = jsDiv (sumValues group2) n2;
          var1 = jsDiv (sumSquares mean1 group1) (jsSub n1 (Fin 1));
          var2 = jsDiv (sumSquares mean2 group2) (jsSub n2 (Fin 1));
          se = Math_sqrt (jsAdd (jsDiv var1 n1) (jsDiv var2 n2));
          t = jsDiv (jsSub mean1 mean2) se;
          df = jsDiv (Math_pow2 (jsAdd (jsDiv var1 n1) (jsDiv var2 n2)))
                 (jsAdd (jsDiv (Math_pow2 (jsDiv var1 n1)) (jsSub n1 (Fin 1)))
                        (jsDiv (Math_pow2 (jsDiv var2 n2)) (jsSub n2 (Fin 1))));
          pValue = jsMul (Fin 2) (jsSub (Fin 1) (normalCDF (Math_abs t)))
      in \<lparr>w_t = t, w_df = df, w_pValue = pValue\<rparr>)"

section \<open>Writing and reading the record file\<close>

text \<open>
  Strings are lists of 8-bit characters.  The white space that \<open>trim\<close> and
  \<open>parseInt\<close> skip is the white space of the language that this character type has.
\<close>

definition isWhiteSpace :: "char \<Rightarrow> bool" where
  "isWhiteSpace c = (c \<in> set [CHR 0x09, CHR 0x0A, CHR 0x0B, CHR 0x0C, CHR 0x0D, CHR 0x20, CHR 0xA0])"

definition trim :: "string \<Rightarrow> string" where
  "trim s = rev (dropWhile isWhiteSpace (rev (dropWhile isWhiteSpace s)))"

text \<open>\<open>s.split(c)\<close> for a one-character separator: never the empty array.\<close>

fun split_str :: "char \<Rightarrow> string \<Rightarrow> string list" where
  "split_str c [] = [[]]"
| "split_str c (x # xs) =
     (if x = c then [] # split_str c xs
      else (case split_str c xs of [] \<Rightarrow> [[x]] | y # ys \<Rightarrow> (x # y) # ys))"

text \<open>\<open>xs.join(c)\<close>\<close>

fun join_str :: "char \<Rightarrow> string list \<Rightarrow> string" where
  "join_str c [] = []"
| "join_str c [x] = x"
| "join_str c (x # y # ys) = x @ c # join_str c (y # ys)"

text \<open>\<open>values[i]\<close> of a string array: \<open>None\<close> is \<open>undefined\<close>.\<close>

definition strAt :: "string list \<Rightarrow> nat \<Rightarrow> string option" where
  "strAt xs i = (if i < length xs then Some (xs ! i) else None)"

definition isDigit :: "char \<Rightarrow> bool" where
  "isDigit c = (48 \<le> (of_char c :: nat) \<and> (of_char c :: nat) \<le> 57)"

definition digitValue :: "char \<Rightarrow> nat" where
  "digitValue c = of_char c - 48"

text \<open>
  \<open>parseInt(str, 10)\<close>, a function of the language: leading white space is skipped,
  one sign is read, then the longest run of decimal digits; without a digit the result
  is \<open>NaN\<close>.  Whatever follows the digits is ignored.
\<close>

definition parseInt :: "string \<Rightarrow> jsnum" where
  "parseInt str =
     (let s = dropWhile isWhiteSpace str;
          negative = (s \<noteq> [] \<and> hd s = CHR ''-'');
          s' = (if s \<noteq> [] \<and> (hd s = CHR ''-'' \<or> hd s = CHR ''+'') then tl s else s);
          ds = takeWhile isDigit s'
      in if ds = [] then NaN
         else let m = foldl (\<lambda>acc c. 10 * acc + digitValue c) 0 ds
              in Fin (if negative then - real m else real m))"

text \<open>
  The conversion of a number to a string, for integers: the decimal digits, with a
  minus sign for a negative number.  (This is what the language prints for every integer
  below \<open>10^21\<close> in magnitude that a number represents exactly; the drivers write loop
  counters and differences of millisecond clocks.)
\<close>

function digitsOf :: "nat \<Rightarrow> string" where
  "digitsOf n = (if n < 10 then [char_of (48 + n)]
                 else digitsOf (n div 10) @ [char_of (48 + n mod 10)])"
  by pat_completeness auto
termination
  by (relation "measure id") auto

declare digitsOf.simps [simp del]

definition numberToString :: "int \<Rightarrow> string" where
  "numberToString i = (if i < 0 then CHR ''-'' # digitsOf (nat (- i)) else digitsOf (nat i))"

text \<open>
  One observation as the benchmark drivers hold it (\<open>interface BenchmarkResult\<close>).
\<close>

record BenchmarkResult =
  timestamp :: string
  facilitator :: string
  network :: string
  sampleNum :: int
  facilitationMs :: "int option"
  roundtripMs :: "int option"
  success :: bool
  error :: string

text \<open>
  The failure branch of \<open>doFetch\<close>: the message of the caught error is stored with its
  commas replaced by semicolons.
\<close>

definition escapeCommas :: "string \<Rightarrow> string" where
  "escapeCommas errorMsg = map (\<lambda>c. if c = CHR '','' then CHR '';'' else c) errorMsg"

definition doFetch_failed :: "string \<Rightarrow> string \<Rightarrow> string \<Rightarrow> int \<Rightarrow> string \<Rightarrow> BenchmarkResult" where
  "doFetch_failed ts fac net num errorMsg =
     \<lparr>timestamp = ts, facilitator = fac, network = net, sampleNum = num,
      facilitationMs = None, roundtripMs = None, success = False,
      error = escapeCommas errorMsg\<rparr>"

definition CSV_HEADER :: string where
  "CSV_HEADER =
     ''timestamp,facilitator,network,sample_num,facilitation_ms,roundtrip_ms,success,error'' @ [CHR 0x0A]"

definition resultToCsvRow :: "BenchmarkResult \<Rightarrow> string" where
  "resultToCsvRow result =
     join_str (CHR '','')
       [timestamp result,
        facilitator result,
        network result,
        numberToString (sampleNum result),
        (case facilitationMs result of None \<Rightarrow> [] | Some v \<Rightarrow> numberToString v),
        (case roundtripMs result of None \<Rightarrow> [] | Some v \<Rightarrow> numberToString v),
        (if success result then ''true'' else ''false''),
        error result]
     @ [CHR 0x0A]"

text \<open>
  The file a driver leaves behind: the header written first, then one row appended for
  each result.
\<close>

definition writeCsv :: "BenchmarkResult list \<Rightarrow> string" where
  "writeCsv results = CSV_HEADER @ concat (map resultToCsvRow results)"

text \<open>
  One row as the analysis script reads it (\<open>interface BenchmarkRow\<close>).  A text field is
  \<open>None\<close> when the line has too few fields (\<open>undefined\<close> in the source).  The fields
  have the names of the source; those of \<open>BenchmarkResult\<close> above are written with the
  record's name in front from here on.
\<close>

record BenchmarkRow =
  timestamp :: "string option"
  facilitator :: "string option"
  network :: "string option"
  sampleNum :: jsnum
  facilitationMs :: jsval
  roundtripMs :: jsval
  success :: bool
  error :: string

definition parseOptInt :: "string option \<Rightarrow> jsval" where
  "parseOptInt v = (case v of None \<Rightarrow> Null
                    | Some s \<Rightarrow> if s = [] then Null else Num (parseInt s))"

definition parseLine :: "string \<Rightarrow> BenchmarkRow" where
  "parseLine line =
     (let values = split_str (CHR '','') line in
      \<lparr>timestamp = strAt values 0,
       facilitator = strAt values 1,
       network = strAt values 2,
       sampleNum = (case strAt values 3 of None \<Rightarrow> NaN | Some s \<Rightarrow> parseInt s),
       facilitationMs = parseOptInt (strAt values 4),
       roundtripMs = parseOptInt (strAt values 5),
       success = (strAt values 6 = Some ''true''),
       error = (case strAt values 7 of None \<Rightarrow> [] | Some s \<Rightarrow> s)\<rparr>)"

text \<open>The first line is the header; it is split in the source and not used.\<close>

definition parseCSV :: "string \<Rightarrow> BenchmarkRow list" where
  "parseCSV content =
     (let lines = split_str (CHR 0x0A) (trim content)
      in map parseLine (drop 1 lines))"

section \<open>The analysis\<close>

text \<open>
  \<open>analyzeData\<close> prints its report; the model returns what is printed, as a structure,
  with the numbers as they are before formatting.  The ways in which the function can
  raise are written out: \<open>toFixed\<close> called on a statistic that is \<open>null\<close> or
  \<open>undefined\<close>, and a field read from a missing entry of the map, are a
  \<open>TypeError\<close>.  (What was printed before the exception is not part of the model.)
\<close>

datatype error = TypeError

text \<open>\<open>[...new Set(xs)]\<close>: the distinct elements in the order of their first occurrence.\<close>

definition newSet :: "'a list \<Rightarrow> 'a list" where
  "newSet xs = foldl (\<lambda>seen x. if x \<in> set seen then seen else seen @ [x]) [] xs"

text \<open>The value stored in the map \<open>facilitatorStats\<close> for one facilitator.\<close>

record FacilitatorEntry =
  facilitation :: Stats
  roundtrip :: Stats
  data :: "jsval list"

definition facilitatorEntry :: "BenchmarkRow list \<Rightarrow> string option \<Rightarrow> FacilitatorEntry" where
  "facilitatorEntry successfulData f =
     (let facilitatorData = filter (\<lambda>r. facilitator r = f) successfulData;
          facilitationTimes = map facilitationMs facilitatorData;
          roundtripTimes = map roundtripMs facilitatorData;
          facilitationStats = calculateStats facilitationTimes;
          roundtripStats = calculateStats roundtripTimes
      in \<lparr>facilitation = facilitationStats, roundtrip = roundtripStats,
          data = facilitationTimes\<rparr>)"

text \<open>
  \<open>x.toFixed(d)\<close> is defined for a number only.  The statistics that the descriptive
  part formats and that are read from the sorted array are the median and the two
  quartiles (the mean, the standard error, the bounds of the interval, the standard
  deviation and the coefficient of variation are results of arithmetic, hence numbers;
  the minimum and the maximum are printed without \<open>toFixed\<close>).
\<close>

fun isNumber :: "jsval \<Rightarrow> bool" where
  "isNumber (Num x) = True"
| "isNumber v = False"

definition printable :: "Stats \<Rightarrow> bool" where
  "printable st = (isNumber (s_median st) \<and> isNumber (s_q1 st) \<and> isNumber (s_q3 st))"

text \<open>
  The loop over the facilitators: the map \<open>facilitatorStats\<close> is built in the order of
  the facilitators, and the loop stops at the first entry that cannot be printed.
\<close>

fun describeAll :: "BenchmarkRow list \<Rightarrow> string option list
    \<Rightarrow> error + (string option \<times> FacilitatorEntry) list" where
  "describeAll successfulData [] = Inr []"
| "describeAll successfulData (f # fs) =
     (let e = facilitatorEntry successfulData f in
      if printable (facilitation e) \<and> printable (roundtrip e)
      then (case describeAll successfulData fs of
              Inl err \<Rightarrow> Inl err
            | Inr rest \<Rightarrow> Inr ((f, e) # rest))
      else Inl TypeError)"

text \<open>\<open>facilitatorStats.get(f)!\<close> followed by a field access.\<close>

definition getEntry :: "(string option \<times> FacilitatorEntry) list \<Rightarrow> string option
    \<Rightarrow> error + FacilitatorEntry" where
  "getEntry facilitatorStats f =
     (case map_of facilitatorStats f of None \<Rightarrow> Inl TypeError | Some e \<Rightarrow> Inr e)"

text \<open>
  One pairwise comparison as it is printed: the two facilitators, the result of the
  test, the difference of the means, whether the p-value is below 0.05 and, if so, which
  of the two is reported as the faster one.
\<close>

record Comparison =
  c_f1 :: "string option"
  c_f2 :: "string option"
  c_result :: WelchResult
  c_diff :: jsnum
  c_significant :: bool
  c_faster :: "string option option"

definition comparison :: "string option \<Rightarrow> FacilitatorEntry \<Rightarrow> string option \<Rightarrow> FacilitatorEntry
    \<Rightarrow> Comparison" where
  "comparison f1 e1 f2 e2 =
     (let r = welchTTest (data e1) (data e2);
          stats1 = facilitation e1;
          stats2 = facilitation e2;
          diff = jsSub (s_mean stats1) (s_mean stats2);
          significant = jsLt (w_pValue r) (Fin 0.05)
      in \<lparr>c_f1 = f1, c_f2 = f2, c_result = r, c_diff = diff,
          c_significant = significant,
          c_faster = (if significant
                      then Some (if jsLt diff (Fin 0) then f1 else f2)
                      else None)\<rparr>)"

definition compare :: "(string option \<times> FacilitatorEntry) list \<Rightarrow> string option \<times> string option
    \<Rightarrow> error + Comparison" where
  "compare facilitatorStats pr =
     (case pr of (f1, f2) \<Rightarrow>
       (case getEntry facilitatorStats f1 of Inl err \<Rightarrow> Inl err
        | Inr e1 \<Rightarrow>
       (case getEntry facilitatorStats f2 of Inl err \<Rightarrow> Inl err
        | Inr e2 \<Rightarrow> Inr (comparison f1 e1 f2 e2))))"

text \<open>
  The index pairs \<open>i < j\<close> in the order of the two nested loops, as pairs of elements.
\<close>

fun pairs :: "'a list \<Rightarrow> ('a \<times> 'a) list" where
  "pairs [] = []"
| "pairs (x # xs) = map (Pair x) xs @ pairs xs"

fun mapE :: "('a \<Rightarrow> error + 'b) \<Rightarrow> 'a list \<Rightarrow> error + 'b list" where
  "mapE f [] = Inr []"
| "mapE f (x # xs) =
     (case f x of Inl err \<Rightarrow> Inl err
      | Inr y \<Rightarrow> (case mapE f xs of Inl err \<Rightarrow> Inl err | Inr ys \<Rightarrow> Inr (y # ys)))"

definition pairwiseComparisons :: "string option list \<Rightarrow> (string option \<times> FacilitatorEntry) list
    \<Rightarrow> error + Comparison list" where
  "pairwiseComparisons facilitators facilitatorStats =
     (if length facilitators \<ge> 2 then mapE (compare facilitatorStats) (pairs facilitators)
      else Inr [])"

text \<open>One line of the table of sample sizes: the difference, the size, the cost.\<close>

definition sampleSizeLine :: "jsnum \<Rightarrow> nat \<Rightarrow> real \<Rightarrow> jsnum \<times> jsnum \<times> jsnum" where
  "sampleSizeLine pooledStd nFacilitators diff =
     (let n = calculateRequiredSampleSize pooledStd (Fin diff);
          cost = jsMul (jsMul n (Fin (real nFacilitators))) (Fin 0.10)
      in (Fin diff, n, cost))"

text \<open>The ranking: the facilitators with their facilitation statistics, sorted by mean.\<close>

definition rank :: "string option list \<Rightarrow> (string option \<times> FacilitatorEntry) list
    \<Rightarrow> error + (string option \<times> Stats) list" where
  "rank facilitators facilitatorStats =
     (case mapE (\<lambda>f. case getEntry facilitatorStats f of Inl err \<Rightarrow> Inl err
                       | Inr e \<Rightarrow> Inr (f, facilitation e)) facilitators of
        Inl err \<Rightarrow> Inl err
      | Inr rs \<Rightarrow> Inr (jsSort (\<lambda>a b. jsSub (s_mean (snd a)) (s_mean (snd b))) rs))"

text \<open>The overlap of the confidence intervals of neighbours in the ranking.\<close>

fun overlaps :: "(string option \<times> Stats) list \<Rightarrow> (string option \<times> string option \<times> bool) list" where
  "overlaps (current # next # rest) =
     (fst current, fst next, jsGt (s_ci95Upper (snd current)) (s_ci95Lower (snd next)))
       # overlaps (next # rest)"
| "overlaps rs = []"

record Report =
  totalRecords :: nat
  successful :: nat
  failed :: nat
  facilitators :: "string option list"
  facilitatorStats :: "(string option \<times> FacilitatorEntry) list"
  comparisons :: "Comparison list"
  pooledStats :: Stats
  sampleSizes :: "(jsnum \<times> jsnum \<times> jsnum) list"
  rankings :: "(string option \<times> Stats) list"
  ciOverlaps :: "(string option \<times> string option \<times> bool) list"

text \<open>The body of \<open>analyzeData\<close> after the file is parsed.\<close>

definition analyzeRows :: "BenchmarkRow list \<Rightarrow> error + Report" where
  "analyzeRows rows =
     (let successfulData = filter success rows;
          fs = newSet (map facilitator successfulData)
      in case describeAll successfulData fs of Inl err \<Rightarrow> Inl err
         | Inr stats \<Rightarrow>
        (case pairwiseComparisons fs stats of Inl err \<Rightarrow> Inl err
         | Inr cs \<Rightarrow>
          let allFacilitationTimes = map facilitationMs successfulData;
              pooled = calculateStats allFacilitationTimes;
              differences = [25, 50, 75, 100, 150, 200]
          in (case rank fs stats of Inl err \<Rightarrow> Inl err
              | Inr rs \<Rightarrow>
                Inr \<lparr>totalRecords = length rows,
                     successful = length successfulData,
                     failed = length rows - length successfulData,
                     facilitators = fs,
                     facilitatorStats = stats,
                     comparisons = cs,
                     pooledStats = pooled,
                     sampleSizes = map (sampleSizeLine (s_std pooled) (length fs)) differences,
                     rankings = rs,
                     ciOverlaps = overlaps rs\<rparr>)))"

definition analyzeData :: "string \<Rightarrow> error + Report" where
  "analyzeData content = analyzeRows (parseCSV content)"

subsection \<open>The summaries of the Solana drivers\<close>

text \<open>
  The Solana pilot and the Solana main driver print a summary of their own for each
  endpoint, with the same text in both.  An endpoint without a successful result is
  reported as such (\<open>No successful samples\<close>).  Otherwise the summary removes the absent
  values before computing statistics
  (\<open>.map(r => r.facilitationMs).filter(t => t !== null)\<close>) and prints the number of
  successful results (\<open>totalCount\<close>) and the number of those with a facilitation time
  (\<open>facilitationCount\<close>).  Modelled is what the summary says of one endpoint: that it has
  no successful sample, or the two counts and the number of roundtrip times that enter
  the statistics.  The pilot keeps and writes every result of \<open>doFetch\<close>, so its summary
  runs on all of them.  (The summaries of the base pilot and of the base main driver
  begin with the same test for an endpoint without a successful result; after it they
  compute their statistics without removing absent values.)
\<close>

datatype Summary = NoSuccessfulSamples | Samples nat nat nat

definition runPilot_summary :: "BenchmarkResult list \<Rightarrow> string \<Rightarrow> Summary" where
  "runPilot_summary results f =
     (let facilitatorResults =
            filter (\<lambda>r. BenchmarkResult.facilitator r = f \<and> BenchmarkResult.success r) results
      in if length facilitatorResults = 0 then NoSuccessfulSamples
         else
           let facilitationTimes =
                 filter (\<lambda>t. t \<noteq> None) (map BenchmarkResult.facilitationMs facilitatorResults);
               roundtripTimes =
                 filter (\<lambda>t. t \<noteq> None) (map BenchmarkResult.roundtripMs facilitatorResults);
               facilitationCount = length facilitationTimes;
               totalCount = length facilitatorResults
           in Samples totalCount facilitationCount (length roundtripTimes))"

text \<open>
  The sampling loop of the Solana main driver keeps (and writes) a result only under
  \<open>if (result.success && result.facilitationMs)\<close>: a result without a facilitation
  time, or with the time 0, is logged as an error and dropped.  Its summary then runs on
  the results that were kept.
\<close>

definition runBenchmark_results :: "BenchmarkResult list \<Rightarrow> BenchmarkResult list" where
  "runBenchmark_results roundResults =
     filter (\<lambda>result. BenchmarkResult.success result \<and>
                (case BenchmarkResult.facilitationMs result of None \<Rightarrow> False | Some v \<Rightarrow> v \<noteq> 0))
       roundResults"

definition runBenchmark_summary :: "BenchmarkResult list \<Rightarrow> string \<Rightarrow> Summary" where
  "runBenchmark_summary roundResults f = runPilot_summary (runBenchmark_results roundResults) f"

section \<open>The round trip through the file\<close>

text \<open>
  The row that stands for a result: the same fields, the numbers as numbers of the
  analysis, an absent number as \<open>null\<close>.
\<close>

definition rowOfResult :: "BenchmarkResult \<Rightarrow> BenchmarkRow" where
  "rowOfResult r =
     \<lparr>timestamp = Some (BenchmarkResult.timestamp r),
      facilitator = Some (BenchmarkResult.facilitator r),
      network = Some (BenchmarkResult.network r),
      sampleNum = Fin (real_of_int (BenchmarkResult.sampleNum r)),
      facilitationMs = (case BenchmarkResult.facilitationMs r of None \<Rightarrow> Null
                        | Some v \<Rightarrow> Num (Fin (real_of_int v))),
      roundtripMs = (case BenchmarkResult.roundtripMs r of None \<Rightarrow> Null
                     | Some v \<Rightarrow> Num (Fin (real_of_int v))),
      success = BenchmarkResult.success r,
      error = BenchmarkResult.error r\<rparr>"

text \<open>A text without the field separator and without a line break.\<close>

definition plainText :: "string \<Rightarrow> bool" where
  "plainText s = (CHR '','' \<notin> set s \<and> CHR 0x0A \<notin> set s)"

text \<open>
  \<open>Number.isSafeInteger\<close>: the integers that a number represents exactly and prints
  digit by digit.
\<close>

definition isSafeInteger :: "int \<Rightarrow> bool" where
  "isSafeInteger i = (\<bar>i\<bar> \<le> 9007199254740991)"

text \<open>
  A result whose text fields are plain and whose numbers are safe integers.
\<close>

definition writable :: "BenchmarkResult \<Rightarrow> bool" where
  "writable r =
     (plainText (BenchmarkResult.timestamp r) \<and> plainText (BenchmarkResult.facilitator r) \<and>
      plainText (BenchmarkResult.network r) \<and> plainText (BenchmarkResult.error r) \<and>
      isSafeInteger (BenchmarkResult.sampleNum r) \<and>
      (case BenchmarkResult.facilitationMs r of None \<Rightarrow> True | Some v \<Rightarrow> isSafeInteger v) \<and>
      (case BenchmarkResult.roundtripMs r of None \<Rightarrow> True | Some v \<Rightarrow> isSafeInteger v))"

definition endsInWhiteSpace :: "string \<Rightarrow> bool" where
  "endsInWhiteSpace s = (s \<noteq> [] \<and> isWhiteSpace (last s))"

text \<open>The line of a result without its line break, and the header line without its.\<close>

definition csvLine :: "BenchmarkResult \<Rightarrow> string" where
  "csvLine result =
     join_str (CHR '','')
       [BenchmarkResult.timestamp result,
        BenchmarkResult.facilitator result,
        BenchmarkResult.network result,
        numberToString (BenchmarkResult.sampleNum result),
        (case BenchmarkResult.facilitationMs result of None \<Rightarrow> [] | Some v \<Rightarrow> numberToString v),
        (case BenchmarkResult.roundtripMs result of None \<Rightarrow> [] | Some v \<Rightarrow> numberToString v),
        (if BenchmarkResult.success result then ''true'' else ''false''),
        BenchmarkResult.error result]"

definition headerLine :: string where
  "headerLine = ''timestamp,facilitator,network,sample_num,facilitation_ms,roundtrip_ms,success,error''"

text \<open>
  Results for the examples: a success and a failure as \<open>doFetch\<close> returns them, and a
  result whose error text holds a comma.
\<close>

definition results_with_failure :: "BenchmarkResult list" where
  "results_with_failure =
    [\<lparr>BenchmarkResult.timestamp = ''t1'', facilitator = ''A'', network = ''base'',
      sampleNum = 1, facilitationMs = Some 100, roundtripMs = Some 200, success = True,
      error = ''''\<rparr>,
     doFetch_failed ''t1'' ''B'' ''base'' 1 ''timeout, no reply'']"

definition result_with_comma :: BenchmarkResult where
  "result_with_comma =
     \<lparr>BenchmarkResult.timestamp = ''t1'', facilitator = ''A'', network = ''base'',
      sampleNum = 1, facilitationMs = None, roundtripMs = None, success = False,
      error = ''a,b''\<rparr>"

section \<open>Example files\<close>

text \<open>
  Files as the drivers write them, used below to run the analysis on concrete input:
  one facilitator with a successful sample and one whose only sample failed; one
  facilitator with a single successful sample and one with two; and successful samples
  of the Solana pilot whose response carried no elapsed time.
\<close>

definition file_one_failed :: string where
  "file_one_failed = CSV_HEADER
     @ ''t1,A,base,1,100,200,true,'' @ [CHR 0x0A]
     @ ''t1,B,base,1,,,false,timeout'' @ [CHR 0x0A]"


definition file_missing_elapsed :: string where
  "file_missing_elapsed = CSV_HEADER
     @ ''t1,A,solana,1,,150,true,elapsed field missing in response'' @ [CHR 0x0A]
     @ ''t2,A,solana,2,100,160,true,'' @ [CHR 0x0A]
     @ ''t3,A,solana,3,110,170,true,'' @ [CHR 0x0A]
     @ ''t4,A,solana,4,120,180,true,'' @ [CHR 0x0A]"

definition file_only_missing_elapsed :: string where
  "file_only_missing_elapsed = CSV_HEADER
     @ ''t1,A,solana,1,,150,true,elapsed field missing in response'' @ [CHR 0x0A]"

text \<open>
  The results of a pilot that give the file \<open>file_one_failed\<close> when they are written,
  and the results of the Solana pilot that give the file \<open>file_missing_elapsed\<close>.
\<close>

definition results_one_failed :: "BenchmarkResult list" where
  "results_one_failed =
    [\<lparr>BenchmarkResult.timestamp = ''t1'', facilitator = ''A'', network = ''base'',
      sampleNum = 1, facilitationMs = Some 100, roundtripMs = Some 200, success = True,
      error = ''''\<rparr>,
     doFetch_failed ''t1'' ''B'' ''base'' 1 ''timeout'']"

definition results_missing_elapsed :: "BenchmarkResult list" where
  "results_missing_elapsed =
    [\<lparr>BenchmarkResult.timestamp = ''t1'', facilitator = ''A'', network = ''solana'',
      sampleNum = 1, facilitationMs = None, roundtripMs = Some 150, success = True,
      error = ''elapsed field missing in response''\<rparr>,
     \<lparr>BenchmarkResult.timestamp = ''t2'', facilitator = ''A'', network = ''solana'',
      sampleNum = 2, facilitationMs = Some 100, roundtripMs = Some 160, success = True,
      error = ''''\<rparr>,
     \<lparr>BenchmarkResult.timestamp = ''t3'', facilitator = ''A'', network = ''solana'',
      sampleNum = 3, facilitationMs = Some 110, roundtripMs = Some 170, success = True,
      error = ''''\<rparr>,
     \<lparr>BenchmarkResult.timestamp = ''t4'', facilitator = ''A'', network = ''solana'',
      sampleNum = 4, facilitationMs = Some 120, roundtripMs = Some 180, success = True,
      error = ''''\<rparr>]"

section \<open>The formulas of the specification\<close>

text \<open>
  The specification states the statistics over the real numbers.  These definitions
  follow its words; the theorems below compare them with the functions of the code.
\<close>

definition spec_mean :: "real list \<Rightarrow> real" where
  "spec_mean xs = sum_list xs / real (length xs)"

text \<open>The sample variance, with divisor \<open>n - 1\<close>.\<close>

definition spec_variance :: "real list \<Rightarrow> real" where
  "spec_variance xs = (\<Sum>x\<leftarrow>xs. (x - spec_mean xs)\<^sup>2) / (real (length xs) - 1)"

definition spec_se :: "real list \<Rightarrow> real list \<Rightarrow> real" where
  "spec_se a b = sqrt (spec_variance a / real (length a) + spec_variance b / real (length b))"

definition spec_t :: "real list \<Rightarrow> real list \<Rightarrow> real" where
  "spec_t a b = (spec_mean a - spec_mean b) / spec_se a b"

text \<open>The degrees of freedom of Welch and Satterthwaite.\<close>

definition spec_df :: "real list \<Rightarrow> real list \<Rightarrow> real" where
  "spec_df a b =
     (spec_variance a / real (length a) + spec_variance b / real (length b))\<^sup>2 /
     ((spec_variance a / real (length a))\<^sup>2 / (real (length a) - 1) +
      (spec_variance b / real (length b))\<^sup>2 / (real (length b) - 1))"

text \<open>
  The rational approximation of the error function by Abramowitz and Stegun (formula
  7.1.26), for a non-negative argument, and the standard normal distribution function
  obtained from it by \<open>\<Phi>(z) = (1 + erf (z / \<surd>2)) / 2\<close> and the symmetry of \<open>erf\<close>.
\<close>

definition spec_erf :: "real \<Rightarrow> real" where
  "spec_erf x =
     (let t = 1 / (1 + 0.3275911 * x)
      in 1 - (0.254829592 * t - 0.284496736 * t\<^sup>2 + 1.421413741 * t ^ 3
              - 1.453152027 * t ^ 4 + 1.061405429 * t ^ 5) * exp (- (x\<^sup>2)))"

definition spec_Phi :: "real \<Rightarrow> real" where
  "spec_Phi z = (if z < 0 then (1 - spec_erf (- z / sqrt 2)) / 2
                 else (1 + spec_erf (z / sqrt 2)) / 2)"

text \<open>A number that is finite and lies between 0 and 1.\<close>

definition inUnitInterval :: "jsnum \<Rightarrow> bool" where
  "inUnitInterval v = (case v of Fin c \<Rightarrow> 0 \<le> c \<and> c \<le> 1 | _ \<Rightarrow> False)"

section \<open>The range of the 64-bit format\<close>

text \<open>
  A JavaScript number is a binary64 floating-point number, and the result of an
  operation on finite operands is the exact result, rounded to the format.  The rounded
  result is \<open>Infinity\<close> or \<open>-Infinity\<close> when the magnitude of the exact result is at
  least \<open>2^1024 - 2^970\<close> (the largest finite number is
  \<open>2^1024 - 2^971\<close>, and half a unit in its last place above it the
  rounding goes to infinity), and it is zero when the magnitude of the exact result is at
  most \<open>2^-1075\<close> (half of the smallest positive number).  \<open>binary64\<close> is this
  rounding with respect to the range of the format: overflow and underflow are as in the
  format, and between the two thresholds the exact result is kept, so the rounding of the
  significand to 53 bits is not modelled.
\<close>

definition overflowThreshold :: real where
  "overflowThreshold = 2 ^ 1024 - 2 ^ 970"

definition underflowThreshold :: real where
  "underflowThreshold = 1 / 2 ^ 1075"

definition binary64 :: "real \<Rightarrow> jsnum" where
  "binary64 r =
     (if overflowThreshold \<le> r then PInf
      else if r \<le> - overflowThreshold then NInf
      else if \<bar>r\<bar> \<le> underflowThreshold then Fin 0
      else Fin r)"

text \<open>
  The operations of the first section, with the rounding \<open>rd\<close> applied to the exact
  result of an operation on finite operands; on the special values, and for a division
  by zero, they are the operations of the first section.  \<open>Math.pow(x, 2)\<close>,
  \<open>Math.sqrt\<close> and \<open>Math.exp\<close> are taken as the rounded exact functions.  With
  \<open>rd = Fin\<close> these are the exact operations, with \<open>rd = binary64\<close> they overflow and
  underflow as the operations of the language do.
\<close>

fun jsAddR :: "(real \<Rightarrow> jsnum) \<Rightarrow> jsnum \<Rightarrow> jsnum \<Rightarrow> jsnum" where
  "jsAddR rd (Fin a) (Fin b) = rd (a + b)"
| "jsAddR rd x y = jsAdd x y"

definition jsSubR :: "(real \<Rightarrow> jsnum) \<Rightarrow> jsnum \<Rightarrow> jsnum \<Rightarrow> jsnum" where
  "jsSubR rd x y = jsAddR rd x (jsNeg y)"

fun jsMulR :: "(real \<Rightarrow> jsnum) \<Rightarrow> jsnum \<Rightarrow> jsnum \<Rightarrow> jsnum" where
  "jsMulR rd (Fin a) (Fin b) = rd (a * b)"
| "jsMulR rd x y = jsMul x y"

fun jsDivR :: "(real \<Rightarrow> jsnum) \<Rightarrow> jsnum \<Rightarrow> jsnum \<Rightarrow> jsnum" where
  "jsDivR rd (Fin a) (Fin b) = (if b = 0 then jsDiv (Fin a) (Fin b) else rd (a / b))"
| "jsDivR rd x y = jsDiv x y"

definition Math_pow2R :: "(real \<Rightarrow> jsnum) \<Rightarrow> jsnum \<Rightarrow> jsnum" where
  "Math_pow2R rd x = jsMulR rd x x"

fun Math_sqrtR :: "(real \<Rightarrow> jsnum) \<Rightarrow> jsnum \<Rightarrow> jsnum" where
  "Math_sqrtR rd (Fin a) = (if a < 0 then NaN else rd (sqrt a))"
| "Math_sqrtR rd x = Math_sqrt x"

fun Math_expR :: "(real \<Rightarrow> jsnum) \<Rightarrow> jsnum \<Rightarrow> jsnum" where
  "Math_expR rd (Fin a) = rd (exp a)"
| "Math_expR rd x = Math_exp x"

text \<open>
  The two sums of \<open>welchTTest\<close>, \<open>calculateRequiredSampleSize\<close>, \<open>normalCDF\<close> and
  \<open>welchTTest\<close> once more, operation by operation as in the source, over the rounded
  operations.
\<close>

definition sumValuesR :: "(real \<Rightarrow> jsnum) \<Rightarrow> jsval list \<Rightarrow> jsnum" where
  "sumValuesR rd values = foldl (\<lambda>a b. jsAddR rd a (toNumber b)) (Fin 0) values"

definition sumSquaresR :: "(real \<Rightarrow> jsnum) \<Rightarrow> jsnum \<Rightarrow> jsval list \<Rightarrow> jsnum" where
  "sumSquaresR rd mean values =
     foldl (\<lambda>sum val. jsAddR rd sum (Math_pow2R rd (jsSubR rd (toNumber val) mean))) (Fin 0) values"

definition calculateRequiredSampleSizeR :: "(real \<Rightarrow> jsnum) \<Rightarrow> jsnum \<Rightarrow> jsnum \<Rightarrow> jsnum" where
  "calculateRequiredSampleSizeR rd std minDetectableDiff =
     (let zAlpha = Fin 1.96;
          zBeta = Fin 0.84;
          n = jsDivR rd
                (jsMulR rd (jsMulR rd (Fin 2) (Math_pow2R rd (jsAddR rd zAlpha zBeta)))
                   (Math_pow2R rd std))
                (Math_pow2R rd minDetectableDiff)
      in Math_ceil n)"

definition normalCDFR :: "(real \<Rightarrow> jsnum) \<Rightarrow> jsnum \<Rightarrow> jsnum" where
  "normalCDFR rd x0 =
     (let a1 = Fin 0.254829592;
          a2 = Fin (- 0.284496736);
          a3 = Fin 1.421413741;
          a4 = Fin (- 1.453152027);
          a5 = Fin 1.061405429;
          p = Fin 0.3275911;
          sign = (if jsLt x0 (Fin 0) then Fin (- 1) else Fin 1);
          x = jsDivR rd (Math_abs x0) (Math_sqrtR rd (Fin 2));
          t = jsDivR rd (Fin 1) (jsAddR rd (Fin 1) (jsMulR rd p x));
          y = jsSubR rd (Fin 1)
                (jsMulR rd
                  (jsMulR rd
                    (jsAddR rd (jsMulR rd (jsAddR rd (jsMulR rd (jsAddR rd (jsMulR rd
                       (jsAddR rd (jsMulR rd a5 t) a4) t) a3) t) a2) t) a1)
                    t)
                  (Math_expR rd (jsMulR rd (jsNeg x) x)))
      in jsMulR rd (Fin 0.5) (jsAddR rd (Fin 1) (jsMulR rd sign y)))"

text \<open>The local constant \<open>se\<close> of \<open>welchTTest\<close>, the standard error of the difference.\<close>

definition welchTTestR_se :: "(real \<Rightarrow> jsnum) \<Rightarrow> jsval list \<Rightarrow> jsval list \<Rightarrow> jsnum" where
  "welchTTestR_se rd group1 group2 =
     (let n1 = Fin (real (length group1));
          n2 = Fin (real (length group2));
          mean1 = jsDivR rd (sumValuesR rd group1) n1;
          mean2 = jsDivR rd (sumValuesR rd group2) n2;
          var1 = jsDivR rd (sumSquaresR rd mean1 group1) (jsSubR rd n1 (Fin 1));
          var2 = jsDivR rd (sumSquaresR rd mean2 group2) (jsSubR rd n2 (Fin 1))
      in Math_sqrtR rd (jsAddR rd (jsDivR rd var1 n1) (jsDivR rd var2 n2)))"

definition welchTTestR :: "(real \<Rightarrow> jsnum) \<Rightarrow> jsval list \<Rightarrow> jsval list \<Rightarrow> WelchResult" where
  "welchTTestR rd group1 group2 =
     (let n1 = Fin (real (length group1));
          n2 = Fin (real (length group2));
          mean1 = jsDivR rd (sumValuesR rd group1) n1;
          mean2 = jsDivR rd (sumValuesR rd group2) n2;
          var1 = jsDivR rd (sumSquaresR rd mean1 group1) (jsSubR rd n1 (Fin 1));
          var2 = jsDivR rd (sumSquaresR rd mean2 group2) (jsSubR rd n2 (Fin 1));
          se = Math_sqrtR rd (jsAddR rd (jsDivR rd var1 n1) (jsDivR rd var2 n2));
          t = jsDivR rd (jsSubR rd mean1 mean2) se;
          df = jsDivR rd (Math_pow2R rd (jsAddR rd (jsDivR rd var1 n1) (jsDivR rd var2 n2)))
                 (jsAddR rd (jsDivR rd (Math_pow2R rd (jsDivR rd var1 n1)) (jsSubR rd n1 (Fin 1)))
                        (jsDivR rd (Math_pow2R rd (jsDivR rd var2 n2)) (jsSubR rd n2 (Fin 1))));
          pValue = jsMulR rd (Fin 2) (jsSubR rd (Fin 1) (normalCDFR rd (Math_abs t)))
      in \<lparr>w_t = t, w_df = df, w_pValue = pValue\<rparr>)"

section \<open>Properties\<close>

subsection \<open>Arithmetic on finite numbers\<close>

lemma numbers_simps [simp]:
  "numbers [] = []"
  "numbers (x # xs) = Num (Fin x) # numbers xs"
  "length (numbers xs) = length xs"
  by (simp_all add: numbers_def)

lemma length_numbers: "length (numbers xs) = length xs"
  by simp

lemma foldl_add_Fin:
  "foldl (\<lambda>a b. jsAdd a (toNumber b)) (Fin acc) (numbers xs) = Fin (acc + sum_list xs)"
  by (induction xs arbitrary: acc) (simp_all add: add.assoc)

lemma sumValues_Fin: "sumValues (numbers xs) = Fin (sum_list xs)"
  by (simp add: sumValues_def foldl_add_Fin)

lemma foldl_squares_Fin:
  "foldl (\<lambda>sum val. jsAdd sum (Math_pow2 (jsSub (toNumber val) (Fin m)))) (Fin acc)
     (numbers xs)
   = Fin (acc + (\<Sum>x\<leftarrow>xs. (x - m)\<^sup>2))"
  by (induction xs arbitrary: acc)
    (simp_all add: add.assoc Math_pow2_def jsSub_def power2_eq_square)

lemma sumSquares_Fin:
  "sumSquares (Fin m) (numbers xs) = Fin (\<Sum>x\<leftarrow>xs. (x - m)\<^sup>2)"
  by (simp add: sumSquares_def foldl_squares_Fin)

subsection \<open>The normal distribution function\<close>

lemma horner_form:
  fixes t :: real
  shows "((((a5 * t + a4) * t + a3) * t + a2) * t + a1) * t
       = a1 * t + a2 * t\<^sup>2 + a3 * t ^ 3 + a4 * t ^ 4 + a5 * t ^ 5"
  by (simp add: power2_eq_square power3_eq_cube power4_eq_xxxx numeral_eq_Suc algebra_simps)

lemma erf_denominator: "0 \<le> x \<Longrightarrow> 1 + 0.3275911 * x \<noteq> (0::real)"
proof -
  assume "0 \<le> x"
  then have "0 \<le> 0.3275911 * x" by simp
  then show ?thesis by linarith
qed

lemma erf_core:
  assumes "0 \<le> (x::real)"
  shows "jsSub (Fin 1)
                (jsMul
                  (jsMul
                    (jsAdd (jsMul (jsAdd (jsMul (jsAdd (jsMul (jsAdd (jsMul (Fin 1.061405429) (jsDiv (Fin 1) (jsAdd (Fin 1) (jsMul (Fin 0.3275911) (Fin x))))) (Fin (- 1.453152027))) (jsDiv (Fin 1) (jsAdd (Fin 1) (jsMul (Fin 0.3275911) (Fin x))))) (Fin 1.421413741)) (jsDiv (Fin 1) (jsAdd (Fin 1) (jsMul (Fin 0.3275911) (Fin x)))))
                       (Fin (- 0.284496736))) (jsDiv (Fin 1) (jsAdd (Fin 1) (jsMul (Fin 0.3275911) (Fin x))))) (Fin 0.254829592))
                    (jsDiv (Fin 1) (jsAdd (Fin 1) (jsMul (Fin 0.3275911) (Fin x)))))
                  (Math_exp (jsMul (jsNeg (Fin x)) (Fin x)))) = Fin (spec_erf x)"
proof -
  define t where "t = 1 / (1 + 0.3275911 * x)"
  have d: "jsDiv (Fin 1) (jsAdd (Fin 1) (jsMul (Fin 0.3275911) (Fin x))) = Fin t"
    using erf_denominator[OF assms] by (simp add: t_def)
  have h: "((((1.061405429 * t + (- 1.453152027)) * t + 1.421413741) * t + (- 0.284496736)) * t + 0.254829592) * t
     = 0.254829592 * t + (- 0.284496736) * t\<^sup>2 + 1.421413741 * t ^ 3 + (- 1.453152027) * t ^ 4 + 1.061405429 * t ^ 5"
    by (rule horner_form)
  have s: "spec_erf x = 1 - (0.254829592 * t - 0.284496736 * t\<^sup>2 + 1.421413741 * t ^ 3
              - 1.453152027 * t ^ 4 + 1.061405429 * t ^ 5) * exp (- (x\<^sup>2))"
    unfolding spec_erf_def t_def Let_def by (rule refl)
  show ?thesis
    unfolding d s
    apply (simp only: jsMul.simps jsAdd.simps jsSub_def jsNeg.simps Math_exp.simps h)
    apply (simp add: power2_eq_square)
    done
qed

lemma normalCDF_Fin: "normalCDF (Fin z) = Fin (spec_Phi z)"
proof -
  have x: "jsDiv (Math_abs (Fin z)) (Math_sqrt (Fin 2)) = Fin (\<bar>z\<bar> / sqrt 2)"
    by simp
  have nonneg: "0 \<le> \<bar>z\<bar> / sqrt 2" by simp
  have "normalCDF (Fin z) =
      jsMul (Fin 0.5) (jsAdd (Fin 1)
        (jsMul (if jsLt (Fin z) (Fin 0) then Fin (- 1) else Fin 1) (Fin (spec_erf (\<bar>z\<bar> / sqrt 2)))))"
    unfolding normalCDF_def Let_def x erf_core[OF nonneg] by (rule refl)
  also have "\<dots> = Fin (spec_Phi z)"
    by (cases "z < 0") (simp_all add: spec_Phi_def)
  finally show ?thesis .
qed

lemma poly_nonneg:
  fixes t :: real
  assumes t0: "0 \<le> t" and t1: "t \<le> 1"
  shows "0 \<le> 0.254829592 * t - 0.284496736 * t\<^sup>2 + 1.421413741 * t ^ 3
              - 1.453152027 * t ^ 4 + 1.061405429 * t ^ 5"
proof -
  define m2 where "m2 = t\<^sup>2"
  define m3 where "m3 = t ^ 3"
  define m4 where "m4 = t ^ 4"
  have m2: "0 \<le> m2" by (simp add: m2_def)
  have m32: "m3 \<le> m2" unfolding m2_def m3_def using t0 t1 by (intro power_decreasing) simp_all
  have "0 \<le> (t - 0.2845)\<^sup>2" by simp
  then have sq1: "0 \<le> m2 - 2 * 0.2845 * t + 0.2845 * 0.2845"
    by (simp add: m2_def power2_eq_square algebra_simps)
  have "0 \<le> t\<^sup>2 * (t - 0.6845)\<^sup>2" by simp
  also have "t\<^sup>2 * (t - 0.6845)\<^sup>2 = m4 - 2 * 0.6845 * m3 + 0.6845 * 0.6845 * m2"
    by (simp add: m2_def m3_def m4_def power2_eq_square power3_eq_cube power4_eq_xxxx algebra_simps)
  finally have sq2: "0 \<le> m4 - 2 * 0.6845 * m3 + 0.6845 * 0.6845 * m2" .
  have "0 \<le> 0.254829592 - 0.284496736 * t + 1.421413741 * m2 - 1.453152027 * m3 + 1.061405429 * m4"
    using sq1 sq2 m2 m32 t0 by simp
  then have "0 \<le> t * (0.254829592 - 0.284496736 * t + 1.421413741 * m2 - 1.453152027 * m3 + 1.061405429 * m4)"
    using t0 by simp
  also have "t * (0.254829592 - 0.284496736 * t + 1.421413741 * m2 - 1.453152027 * m3 + 1.061405429 * m4)
     = 0.254829592 * t - 0.284496736 * t\<^sup>2 + 1.421413741 * t ^ 3
              - 1.453152027 * t ^ 4 + 1.061405429 * t ^ 5"
    by (simp add: m2_def m3_def m4_def power2_eq_square power3_eq_cube power4_eq_xxxx numeral_eq_Suc algebra_simps)
  finally show ?thesis .
qed

lemma poly_le_one:
  fixes t :: real
  assumes t0: "0 \<le> t" and t1: "t \<le> 1"
  shows "0.254829592 * t - 0.284496736 * t\<^sup>2 + 1.421413741 * t ^ 3
              - 1.453152027 * t ^ 4 + 1.061405429 * t ^ 5 \<le> 1"
proof -
  define m2 where "m2 = t\<^sup>2"
  define m3 where "m3 = t ^ 3"
  define m4 where "m4 = t ^ 4"
  define m5 where "m5 = t ^ 5"
  have d1: "m2 \<le> t" unfolding m2_def using power_decreasing[of 1 2 t] t0 t1 by simp
  have d2: "m3 \<le> m2" unfolding m2_def m3_def using t0 t1 by (intro power_decreasing) simp_all
  have d3: "m4 \<le> m3" unfolding m4_def m3_def using t0 t1 by (intro power_decreasing) simp_all
  have d4: "m5 \<le> m4" unfolding m4_def m5_def using t0 t1 by (intro power_decreasing) simp_all
  have "0 \<le> t\<^sup>2 * (1 - t)\<^sup>2" by simp
  also have "t\<^sup>2 * (1 - t)\<^sup>2 = m2 - 2 * m3 + m4"
    by (simp add: m2_def m3_def m4_def power2_eq_square power3_eq_cube power4_eq_xxxx algebra_simps)
  finally have c: "0 \<le> m2 - 2 * m3 + m4" .
  have "0.254829592 * t - 0.284496736 * m2 + 1.421413741 * m3 - 1.453152027 * m4 + 1.061405429 * m5 \<le> 1"
    using d1 d2 d3 d4 c t1 by simp
  then show ?thesis by (simp add: m2_def m3_def m4_def m5_def)
qed

lemma spec_erf_range:
  assumes "0 \<le> x"
  shows "0 \<le> spec_erf x \<and> spec_erf x \<le> 1"
proof -
  define t where "t = 1 / (1 + 0.3275911 * x)"
  have den: "1 \<le> 1 + 0.3275911 * x" using assms by simp
  have t0: "0 \<le> t" unfolding t_def using den by simp
  have t1: "t \<le> 1" unfolding t_def using den by (simp add: divide_le_eq)
  define q where "q = 0.254829592 * t - 0.284496736 * t\<^sup>2 + 1.421413741 * t ^ 3
              - 1.453152027 * t ^ 4 + 1.061405429 * t ^ 5"
  have q0: "0 \<le> q" unfolding q_def by (rule poly_nonneg[OF t0 t1])
  have q1: "q \<le> 1" unfolding q_def by (rule poly_le_one[OF t0 t1])
  have e0: "0 \<le> exp (- (x\<^sup>2))" by simp
  have e1: "exp (- (x\<^sup>2)) \<le> 1" by simp
  have s: "spec_erf x = 1 - q * exp (- (x\<^sup>2))"
    unfolding spec_erf_def t_def q_def Let_def by (rule refl)
  have "0 \<le> q * exp (- (x\<^sup>2))" using q0 e0 by (rule mult_nonneg_nonneg)
  moreover have "q * exp (- (x\<^sup>2)) \<le> 1" using q1 e0 e1 by (rule mult_le_one)
  ultimately show ?thesis unfolding s by simp
qed

lemma spec_Phi_range: "0 \<le> spec_Phi z \<and> spec_Phi z \<le> 1"
proof (cases "z < 0")
  case True
  then have "0 \<le> - z / sqrt 2" by (simp add: divide_le_0_iff)
  from spec_erf_range[OF this] show ?thesis using True by (simp add: spec_Phi_def)
next
  case False
  then have "0 \<le> z / sqrt 2" by simp
  from spec_erf_range[OF this] show ?thesis using False by (simp add: spec_Phi_def)
qed

subsection \<open>Welch's t-test on finite samples\<close>

lemma mean_Fin:
  "xs \<noteq> [] \<Longrightarrow>
   jsDiv (sumValues (numbers xs)) (Fin (real (length xs))) = Fin (spec_mean xs)"
  by (simp add: sumValues_Fin spec_mean_def)

lemma var_Fin:
  "2 \<le> length xs \<Longrightarrow>
   jsDiv (sumSquares (Fin (spec_mean xs)) (numbers xs))
         (jsSub (Fin (real (length xs))) (Fin 1)) = Fin (spec_variance xs)"
  by (simp add: sumSquares_Fin spec_variance_def jsSub_def)

lemma spec_variance_nonneg: "2 \<le> length xs \<Longrightarrow> 0 \<le> spec_variance xs"
  unfolding spec_variance_def
  by (intro divide_nonneg_nonneg sum_list_nonneg) auto

lemma welchTTest_Fin:
  assumes a: "2 \<le> length a" and b: "2 \<le> length b" and se: "0 < spec_se a b"
  shows "welchTTest (numbers a) (numbers b) =
     \<lparr>w_t = Fin (spec_t a b), w_df = Fin (spec_df a b),
      w_pValue = Fin (2 * (1 - spec_Phi \<bar>spec_t a b\<bar>))\<rparr>"
proof -
  define ra where "ra = spec_variance a / real (length a)"
  define rb where "rb = spec_variance b / real (length b)"
  have ne: "a \<noteq> []" "b \<noteq> []" using a b by auto
  have ra0: "0 \<le> ra" unfolding ra_def using spec_variance_nonneg[OF a] by simp
  have rb0: "0 \<le> rb" unfolding rb_def using spec_variance_nonneg[OF b] by simp
  have r: "0 < ra + rb" using se unfolding spec_se_def ra_def rb_def by simp
  have la: "0 < real (length a) - 1" "0 < real (length b) - 1" using a b by auto
  have na: "real (length a) \<noteq> 0" "real (length b) \<noteq> 0" using ne by auto
  have da: "jsDiv (Fin (spec_variance a)) (Fin (real (length a))) = Fin ra"
    using na by (simp add: ra_def)
  have db: "jsDiv (Fin (spec_variance b)) (Fin (real (length b))) = Fin rb"
    using na by (simp add: rb_def)
  have sq: "Math_sqrt (jsAdd (Fin ra) (Fin rb)) = Fin (spec_se a b)"
    using r by (simp add: spec_se_def ra_def rb_def)
  have t: "jsDiv (jsSub (Fin (spec_mean a)) (Fin (spec_mean b))) (Fin (spec_se a b)) = Fin (spec_t a b)"
    using se by (simp add: jsSub_def spec_t_def)
  have den: "0 < ra\<^sup>2 / (real (length a) - 1) + rb\<^sup>2 / (real (length b) - 1)"
  proof -
    have "0 < ra \<or> 0 < rb" using r ra0 rb0 by linarith
    then show ?thesis
    proof
      assume "0 < ra"
      then have "0 < ra\<^sup>2 / (real (length a) - 1)" using la by simp
      moreover have "0 \<le> rb\<^sup>2 / (real (length b) - 1)" using la by simp
      ultimately show ?thesis by linarith
    next
      assume "0 < rb"
      then have "0 < rb\<^sup>2 / (real (length b) - 1)" using la by simp
      moreover have "0 \<le> ra\<^sup>2 / (real (length a) - 1)" using la by simp
      ultimately show ?thesis by linarith
    qed
  qed
  have df: "jsDiv (Math_pow2 (jsAdd (Fin ra) (Fin rb)))
                 (jsAdd (jsDiv (Math_pow2 (Fin ra)) (jsSub (Fin (real (length a))) (Fin 1)))
                        (jsDiv (Math_pow2 (Fin rb)) (jsSub (Fin (real (length b))) (Fin 1))))
          = Fin (spec_df a b)"
    using den la
    by (simp add: Math_pow2_def jsSub_def spec_df_def ra_def[symmetric] rb_def[symmetric]
        power2_eq_square)
  show ?thesis
    unfolding welchTTest_def Let_def length_numbers mean_Fin[OF ne(1)] mean_Fin[OF ne(2)]
      var_Fin[OF a] var_Fin[OF b] da db sq t df
    by (simp add: normalCDF_Fin jsSub_def)
qed

lemma spec_Phi_abs: "1 / 2 \<le> spec_Phi \<bar>z\<bar> \<and> spec_Phi \<bar>z\<bar> \<le> 1"
proof -
  have "0 \<le> \<bar>z\<bar> / sqrt 2" by simp
  from spec_erf_range[OF this] show ?thesis by (simp add: spec_Phi_def)
qed


subsection \<open>Propagation of \<open>NaN\<close>\<close>

lemma jsAdd_NaN [simp]: "jsAdd x NaN = NaN" "jsAdd NaN x = NaN"
  by (cases x; simp)+

lemma jsNeg_NaN_iff [simp]: "jsNeg x = NaN \<longleftrightarrow> x = NaN"
  by (cases x) simp_all

lemma jsSub_NaN [simp]: "jsSub x NaN = NaN" "jsSub NaN x = NaN"
  by (simp_all add: jsSub_def)

lemma jsMul_NaN [simp]: "jsMul x NaN = NaN" "jsMul NaN x = NaN"
  by (cases x; simp)+

lemma jsDiv_NaN [simp]: "jsDiv x NaN = NaN" "jsDiv NaN x = NaN"
  by (cases x; simp)+

lemma Math_pow2_NaN [simp]: "Math_pow2 NaN = NaN"
  by (simp add: Math_pow2_def)

lemma normalCDF_NaN [simp]: "normalCDF NaN = NaN"
  by (simp add: normalCDF_def)

lemma jsSub_self_square: "jsDiv (jsAdd (Fin 0) (Math_pow2 (jsSub x (jsDiv (jsAdd (Fin 0) x) (Fin 1))))) (Fin 0) = NaN"
  by (cases x) (simp_all add: jsSub_def Math_pow2_def)

lemma short_group_variance:
  assumes "length g < 2"
  shows "jsDiv (jsDiv (sumSquares (jsDiv (sumValues g) (Fin (real (length g)))) g)
                      (jsSub (Fin (real (length g))) (Fin 1)))
               (Fin (real (length g))) = NaN"
proof (cases g)
  case Nil
  then show ?thesis by (simp add: sumValues_def sumSquares_def jsSub_def)
next
  case (Cons v vs)
  with assms have vs: "vs = []" by simp
  show ?thesis
    unfolding Cons vs
    by (simp add: sumValues_def sumSquares_def jsSub_def[of "Fin 1"] jsSub_self_square)
qed

lemma welchTTest_short:
  assumes "length group1 < 2 \<or> length group2 < 2"
  shows "welchTTest group1 group2 = \<lparr>w_t = NaN, w_df = NaN, w_pValue = NaN\<rparr>"
  using assms
proof
  assume "length group1 < 2"
  from short_group_variance[OF this] show ?thesis
    by (simp add: welchTTest_def Let_def)
next
  assume "length group2 < 2"
  from short_group_variance[OF this] show ?thesis
    by (simp add: welchTTest_def Let_def)
qed

subsection \<open>Sorting finite numbers\<close>




lemma floor_half: "nat \<lfloor>real n / 2\<rfloor> = n div 2"
  using floor_divide_of_nat_eq[where ?'a = real, of n 2] by simp

lemma floor_index_less:
  assumes "0 < n" and "0 \<le> c" and "c < 1"
  shows "nat \<lfloor>real n * c\<rfloor> < n"
proof -
  have "real n * c < real n" using assms by simp
  then have "\<lfloor>real n * c\<rfloor> < int n" by (simp add: floor_less_iff)
  then show ?thesis using assms by linarith
qed


subsection \<open>The structure of the report\<close>

lemma set_insertBy [simp]: "set (insertBy cmp x ys) = insert x (set ys)"
  by (induction ys) auto

lemma length_insertBy [simp]: "length (insertBy cmp x ys) = Suc (length ys)"
  by (induction ys) auto

lemma set_jsSort [simp]: "set (jsSort cmp xs) = set xs"
  by (induction xs) (simp_all add: jsSort_def)

lemma length_jsSort [simp]: "length (jsSort cmp xs) = length xs"
  by (induction xs) (simp_all add: jsSort_def)

lemma isNumber_jsAt:
  assumes "\<forall>v\<in>set xs. isNumber v" and "i < length xs"
  shows "isNumber (jsAt xs i)"
  using assms by (simp add: jsAt_def)

lemma printable_calculateStats:
  assumes "\<forall>v\<in>set values. isNumber v"
  shows "printable (calculateStats values)"
proof (cases "values = []")
  case True
  then show ?thesis by (simp add: calculateStats_def printable_def)
next
  case False
  then have n0: "0 < length values" by simp
  have all: "\<forall>v\<in>set (sortValues values). isNumber v"
    using assms by (simp add: sortValues_def)
  have len: "length (sortValues values) = length values"
    by (simp add: sortValues_def)
  have i1: "nat \<lfloor>real (length values) * 0.25\<rfloor> < length (sortValues values)"
    unfolding len by (rule floor_index_less [OF n0]) simp_all
  have i3: "nat \<lfloor>real (length values) * 0.75\<rfloor> < length (sortValues values)"
    unfolding len by (rule floor_index_less [OF n0]) simp_all
  have h: "nat \<lfloor>real (length values) / 2\<rfloor> < length (sortValues values)"
    unfolding len floor_half using n0 by simp
  show ?thesis
    using False isNumber_jsAt [OF all i1] isNumber_jsAt [OF all i3] isNumber_jsAt [OF all h]
    by (simp add: calculateStats_def printable_def Let_def)
qed

lemma s_n_calculateStats [simp]: "s_n (calculateStats values) = length values"
  by (simp add: calculateStats_def Let_def)

lemma set_newSet_aux:
  "set (foldl (\<lambda>seen x. if x \<in> set seen then seen else seen @ [x]) acc xs) = set acc \<union> set xs"
  by (induction xs arbitrary: acc) auto

lemma set_newSet [simp]: "set (newSet xs) = set xs"
  by (simp add: newSet_def set_newSet_aux)

lemma distinct_newSet_aux:
  "distinct acc \<Longrightarrow> distinct (foldl (\<lambda>seen x. if x \<in> set seen then seen else seen @ [x]) acc xs)"
  by (induction xs arbitrary: acc) auto

lemma distinct_newSet [simp]: "distinct (newSet xs)"
  by (simp add: newSet_def distinct_newSet_aux)

lemma describeAll_Inr:
  "describeAll sd fs = Inr stats \<Longrightarrow> stats = map (\<lambda>f. (f, facilitatorEntry sd f)) fs"
  by (induction fs arbitrary: stats) (auto simp: Let_def split: if_splits sum.splits)

lemma describeAll_ok:
  "\<forall>f\<in>set fs. printable (facilitation (facilitatorEntry sd f)) \<and>
                 printable (roundtrip (facilitatorEntry sd f)) \<Longrightarrow>
   describeAll sd fs = Inr (map (\<lambda>f. (f, facilitatorEntry sd f)) fs)"
  by (induction fs) (auto simp: Let_def)

lemma getEntry_map:
  "f \<in> set fs \<Longrightarrow> getEntry (map (\<lambda>f. (f, e f)) fs) f = Inr (e f)"
  by (simp add: getEntry_def map_of_map_restrict)

lemma mapE_Inr:
  "\<forall>x\<in>set xs. f x = Inr (g x) \<Longrightarrow> mapE f xs = Inr (map g xs)"
  by (induction xs) auto

lemma set_pairs: "(a, b) \<in> set (pairs xs) \<Longrightarrow> a \<in> set xs \<and> b \<in> set xs"
  by (induction xs) auto

lemma pairwiseComparisons_map:
  "pairwiseComparisons fs (map (\<lambda>f. (f, e f)) fs) =
     Inr (map (\<lambda>(f1, f2). comparison f1 (e f1) f2 (e f2)) (pairs fs))"
proof (cases "2 \<le> length fs")
  case True
  have "\<forall>pr\<in>set (pairs fs). compare (map (\<lambda>f. (f, e f)) fs) pr
          = Inr ((\<lambda>(f1, f2). comparison f1 (e f1) f2 (e f2)) pr)"
    by (auto simp: compare_def getEntry_map dest: set_pairs)
  from mapE_Inr [OF this] show ?thesis using True by (simp add: pairwiseComparisons_def)
next
  case False
  then have "pairs fs = []" by (cases fs rule: pairs.cases) (auto simp: Suc_le_eq)
  then show ?thesis using False by (simp add: pairwiseComparisons_def)
qed

lemma rank_map:
  "rank fs (map (\<lambda>f. (f, e f)) fs) =
     Inr (jsSort (\<lambda>a b. jsSub (s_mean (snd a)) (s_mean (snd b)))
            (map (\<lambda>f. (f, facilitation (e f))) fs))"
proof -
  have "\<forall>f\<in>set fs. (case getEntry (map (\<lambda>f. (f, e f)) fs) f of Inl err \<Rightarrow> Inl err
                       | Inr en \<Rightarrow> Inr (f, facilitation en)) = Inr (f, facilitation (e f))"
    by (simp add: getEntry_map)
  from mapE_Inr [OF this] show ?thesis by (simp add: rank_def)
qed

lemma analyzeRows_Inr:
  assumes "analyzeRows rows = Inr rep"
  defines "sd \<equiv> filter success rows"
  shows "facilitators rep = newSet (map facilitator sd)"
    and "facilitatorStats rep = map (\<lambda>f. (f, facilitatorEntry sd f)) (facilitators rep)"
    and "comparisons rep =
           map (\<lambda>(f1, f2). comparison f1 (facilitatorEntry sd f1) f2 (facilitatorEntry sd f2))
               (pairs (facilitators rep))"
    and "rankings rep =
           jsSort (\<lambda>a b. jsSub (s_mean (snd a)) (s_mean (snd b)))
             (map (\<lambda>f. (f, facilitation (facilitatorEntry sd f))) (facilitators rep))"
    and "successful rep = length sd"
    and "totalRecords rep = length rows"
proof -
  define fs where "fs = newSet (map facilitator sd)"
  obtain stats where d: "describeAll sd fs = Inr stats"
    using assms(1) unfolding analyzeRows_def Let_def sd_def fs_def
    by (cases "describeAll (filter success rows) (newSet (map facilitator (filter success rows)))") auto
  have stats: "stats = map (\<lambda>f. (f, facilitatorEntry sd f)) fs"
    using describeAll_Inr [OF d] .
  have rep: "rep = \<lparr>totalRecords = length rows,
                     successful = length sd,
                     failed = length rows - length sd,
                     facilitators = fs,
                     facilitatorStats = stats,
                     comparisons = map (\<lambda>(f1, f2). comparison f1 (facilitatorEntry sd f1) f2 (facilitatorEntry sd f2)) (pairs fs),
                     pooledStats = calculateStats (map facilitationMs sd),
                     sampleSizes = map (sampleSizeLine (s_std (calculateStats (map facilitationMs sd))) (length fs)) [25, 50, 75, 100, 150, 200],
                     rankings = jsSort (\<lambda>a b. jsSub (s_mean (snd a)) (s_mean (snd b))) (map (\<lambda>f. (f, facilitation (facilitatorEntry sd f))) fs),
                     ciOverlaps = overlaps (jsSort (\<lambda>a b. jsSub (s_mean (snd a)) (s_mean (snd b))) (map (\<lambda>f. (f, facilitation (facilitatorEntry sd f))) fs))\<rparr>"
    using assms(1) d unfolding analyzeRows_def Let_def sd_def[symmetric] fs_def[symmetric]
    by (simp add: stats pairwiseComparisons_map rank_map)
  show "facilitators rep = newSet (map facilitator sd)" by (simp add: rep fs_def)
  show "facilitatorStats rep = map (\<lambda>f. (f, facilitatorEntry sd f)) (facilitators rep)"
    by (simp add: rep stats)
  show "comparisons rep =
           map (\<lambda>(f1, f2). comparison f1 (facilitatorEntry sd f1) f2 (facilitatorEntry sd f2))
               (pairs (facilitators rep))" by (simp add: rep)
  show "rankings rep =
           jsSort (\<lambda>a b. jsSub (s_mean (snd a)) (s_mean (snd b)))
             (map (\<lambda>f. (f, facilitation (facilitatorEntry sd f))) (facilitators rep))"
    by (simp add: rep)
  show "successful rep = length sd" by (simp add: rep)
  show "totalRecords rep = length rows" by (simp add: rep)
qed

lemma analyzeRows_completes:
  assumes "\<forall>r\<in>set rows. success r \<longrightarrow> isNumber (facilitationMs r) \<and> isNumber (roundtripMs r)"
  shows "\<exists>rep. analyzeRows rows = Inr rep"
proof -
  define sd where "sd = filter success rows"
  define fs where "fs = newSet (map facilitator sd)"
  have "\<forall>f\<in>set fs. printable (facilitation (facilitatorEntry sd f)) \<and>
                 printable (roundtrip (facilitatorEntry sd f))"
    using assms by (auto simp: facilitatorEntry_def Let_def sd_def intro!: printable_calculateStats)
  from describeAll_ok [OF this] show ?thesis
    unfolding analyzeRows_def Let_def sd_def[symmetric] fs_def[symmetric]
    by (simp add: pairwiseComparisons_map rank_map)
qed



subsection \<open>The example files, parsed\<close>

lemmas parse_defs = CSV_HEADER_def parseCSV_def trim_def isWhiteSpace_def parseLine_def
  strAt_def parseOptInt_def parseInt_def isDigit_def digitValue_def Let_def

lemma parse_file_one_failed:
  "parseCSV file_one_failed =
    [\<lparr>timestamp = Some ''t1'', facilitator = Some ''A'', network = Some ''base'',
      sampleNum = Fin 1, facilitationMs = Num (Fin 100), roundtripMs = Num (Fin 200),
      success = True, error = ''''\<rparr>,
     \<lparr>timestamp = Some ''t1'', facilitator = Some ''B'', network = Some ''base'',
      sampleNum = Fin 1, facilitationMs = Null, roundtripMs = Null,
      success = False, error = ''timeout''\<rparr>]"
  by (simp add: file_one_failed_def parse_defs)


lemma parse_file_missing_elapsed:
  "parseCSV file_missing_elapsed =
    [\<lparr>timestamp = Some ''t1'', facilitator = Some ''A'', network = Some ''solana'',
      sampleNum = Fin 1, facilitationMs = Null, roundtripMs = Num (Fin 150),
      success = True, error = ''elapsed field missing in response''\<rparr>,
     \<lparr>timestamp = Some ''t2'', facilitator = Some ''A'', network = Some ''solana'',
      sampleNum = Fin 2, facilitationMs = Num (Fin 100), roundtripMs = Num (Fin 160),
      success = True, error = ''''\<rparr>,
     \<lparr>timestamp = Some ''t3'', facilitator = Some ''A'', network = Some ''solana'',
      sampleNum = Fin 3, facilitationMs = Num (Fin 110), roundtripMs = Num (Fin 170),
      success = True, error = ''''\<rparr>,
     \<lparr>timestamp = Some ''t4'', facilitator = Some ''A'', network = Some ''solana'',
      sampleNum = Fin 4, facilitationMs = Num (Fin 120), roundtripMs = Num (Fin 180),
      success = True, error = ''''\<rparr>]"
  by (simp add: file_missing_elapsed_def parse_defs)

lemma parse_file_only_missing_elapsed:
  "parseCSV file_only_missing_elapsed =
    [\<lparr>timestamp = Some ''t1'', facilitator = Some ''A'', network = Some ''solana'',
      sampleNum = Fin 1, facilitationMs = Null, roundtripMs = Num (Fin 150),
      success = True, error = ''elapsed field missing in response''\<rparr>]"
  by (simp add: file_only_missing_elapsed_def parse_defs)



lemma facilitation_n:
  "s_n (facilitation (facilitatorEntry (filter success rows) f)) =
     length (filter (\<lambda>r. success r \<and> facilitator r = f) rows)"
  by (simp add: facilitatorEntry_def Let_def)

lemma c_fields_comparison [simp]:
  "c_f1 (comparison f1 e1 f2 e2) = f1"
  "c_f2 (comparison f1 e1 f2 e2) = f2"
  "c_result (comparison f1 e1 f2 e2) = welchTTest (data e1) (data e2)"
  by (simp_all add: comparison_def Let_def)


lemma analyzeRows_completes_printable:
  assumes "\<forall>f\<in>set (newSet (map facilitator (filter success rows))).
             printable (facilitation (facilitatorEntry (filter success rows) f)) \<and>
             printable (roundtrip (facilitatorEntry (filter success rows) f))"
  shows "\<exists>rep. analyzeRows rows = Inr rep"
  using describeAll_ok [OF assms]
  unfolding analyzeRows_def Let_def
  by (simp add: pairwiseComparisons_map rank_map)

lemma set_facilitators:
  assumes "analyzeRows rows = Inr rep"
  shows "set (facilitators rep) = set (map facilitator (filter success rows))"
  unfolding analyzeRows_Inr(1) [OF assms] by simp

lemma fst_facilitatorStats:
  assumes "analyzeRows rows = Inr rep"
  shows "map fst (facilitatorStats rep) = facilitators rep"
  unfolding analyzeRows_Inr(2) [OF assms] by (simp add: comp_def)

lemma fst_rankings:
  assumes "analyzeRows rows = Inr rep"
  shows "fst ` set (rankings rep) = set (facilitators rep)"
  unfolding analyzeRows_Inr(4) [OF assms] by (simp add: image_image)

lemma comparisons_members:
  assumes "analyzeRows rows = Inr rep" and "c \<in> set (comparisons rep)"
  shows "c_f1 c \<in> set (facilitators rep) \<and> c_f2 c \<in> set (facilitators rep)"
  using assms(2) unfolding analyzeRows_Inr(3) [OF assms(1)]
  by (auto dest: set_pairs)

subsection \<open>Evaluation of the examples\<close>

lemma digit_chars [simp]:
  "char_of (48::nat) = CHR ''0''" "char_of (49::nat) = CHR ''1''" "char_of (50::nat) = CHR ''2''"
  "char_of (51::nat) = CHR ''3''" "char_of (52::nat) = CHR ''4''" "char_of (53::nat) = CHR ''5''"
  "char_of (54::nat) = CHR ''6''" "char_of (55::nat) = CHR ''7''" "char_of (56::nat) = CHR ''8''"
  "char_of (57::nat) = CHR ''9''"
  by (simp_all add: char_of_def bit_Suc_0_iff)

lemma digitsOf_numeral [simp]:
  "digitsOf (numeral k) = (if numeral k < (10::nat) then [char_of (48 + (numeral k :: nat))]
                 else digitsOf (numeral k div 10) @ [char_of (48 + (numeral k :: nat) mod 10)])"
  by (rule digitsOf.simps)

lemma digitsOf_small [simp]: "digitsOf 0 = ''0''" "digitsOf (Suc 0) = ''1''"
  by (simp_all add: digitsOf.simps [of 0] digitsOf.simps [of "Suc 0"])

lemma write_results_missing_elapsed:
  "writeCsv results_missing_elapsed = file_missing_elapsed"
  by (simp add: writeCsv_def results_missing_elapsed_def file_missing_elapsed_def
      resultToCsvRow_def numberToString_def CSV_HEADER_def)

lemma write_results_one_failed:
  "writeCsv results_one_failed = file_one_failed"
  by (simp add: writeCsv_def results_one_failed_def file_one_failed_def doFetch_failed_def
      escapeCommas_def resultToCsvRow_def numberToString_def CSV_HEADER_def)

lemma s_mean_calculateStats:
  "values \<noteq> [] \<Longrightarrow>
   s_mean (calculateStats values) = jsDiv (sumValues values) (Fin (real (length values)))"
  by (simp add: calculateStats_def Let_def)

lemma printable_missing_elapsed:
  "printable (calculateStats [Null, Num (Fin 100), Num (Fin 110), Num (Fin 120)])"
  by (simp add: printable_def calculateStats_def Let_def sortValues_def jsSort_def jsGt_def
      jsSub_def jsAt_def)

lemma not_printable_only_missing: "\<not> printable (calculateStats [Null])"
  by (simp add: printable_def calculateStats_def Let_def sortValues_def jsSort_def jsAt_def)

subsection \<open>Lines, fields and numbers in the file\<close>

lemma split_str_not_Nil [simp]: "split_str c xs \<noteq> []"
  by (induction xs) (auto split: list.splits)

lemma split_str_no_separator: "c \<notin> set xs \<Longrightarrow> split_str c xs = [xs]"
  by (induction xs) auto

lemma split_str_append:
  "c \<notin> set xs \<Longrightarrow> split_str c (xs @ c # ys) = xs # split_str c ys"
  by (induction xs) auto

lemma split_join:
  "parts \<noteq> [] \<Longrightarrow> \<forall>f\<in>set parts. c \<notin> set f \<Longrightarrow>
   split_str c (join_str c parts) = parts"
  by (induction c parts rule: join_str.induct)
    (simp_all add: split_str_no_separator split_str_append)

lemma set_join_str: "set (join_str c parts) \<subseteq> insert c (\<Union>f\<in>set parts. set f)"
  by (induction c parts rule: join_str.induct) auto

lemma join_str_lines:
  "ls \<noteq> [] \<Longrightarrow> concat (map (\<lambda>l. l @ [c]) ls) = join_str c ls @ [c]"
  by (induction c ls rule: join_str.induct) simp_all

lemma hd_join_str: "x \<noteq> [] \<Longrightarrow> hd (join_str c (x # xs)) = hd x"
  by (cases xs) simp_all

lemma join_str_not_Nil: "x \<noteq> [] \<Longrightarrow> join_str c (x # xs) \<noteq> []"
  by (cases xs) simp_all

lemma join_str_last_not_Nil:
  "ls \<noteq> [] \<Longrightarrow> last ls \<noteq> [] \<Longrightarrow> join_str c ls \<noteq> []"
  by (induction c ls rule: join_str.induct) auto

lemma last_join_str:
  "ls \<noteq> [] \<Longrightarrow> last ls \<noteq> [] \<Longrightarrow> last (join_str c ls) = last (last ls)"
  by (induction c ls rule: join_str.induct) (auto simp: join_str_last_not_Nil)

lemma trim_line:
  assumes "s \<noteq> []" and "\<not> isWhiteSpace (hd s)" and "\<not> isWhiteSpace (last s)"
  shows "trim (s @ [CHR 0x0A]) = s"
proof -
  obtain x xs where s: "s = x # xs" using assms(1) by (cases s) auto
  have 1: "dropWhile isWhiteSpace (s @ [CHR 0x0A]) = s @ [CHR 0x0A]"
    using assms(2) by (simp add: s)
  have nl: "isWhiteSpace (CHR 0x0A)" by (simp add: isWhiteSpace_def)
  obtain y ys where r: "rev s = y # ys" using assms(1) by (cases "rev s") auto
  have "hd (rev s) = last s" using assms(1) by (simp add: hd_rev)
  then have "y = last s" by (simp add: r)
  then have 2: "dropWhile isWhiteSpace (rev s) = rev s"
    using assms(3) by (simp add: r)
  show ?thesis unfolding trim_def 1 by (simp add: nl 2)
qed

lemma digitsOf_not_Nil [simp]: "digitsOf n \<noteq> []"
  by (subst digitsOf.simps) simp

lemma isDigit_char_of: "d < 10 \<Longrightarrow> isDigit (char_of (48 + (d::nat)))"
  by (simp add: isDigit_def)

lemma digitValue_char_of: "d < 10 \<Longrightarrow> digitValue (char_of (48 + (d::nat))) = d"
  by (simp add: digitValue_def)

lemma digitsOf_digits: "\<forall>c\<in>set (digitsOf n). isDigit c"
proof (induction n rule: digitsOf.induct)
  case (1 n)
  show ?case
  proof (cases "n < 10")
    case True
    then show ?thesis by (subst digitsOf.simps) (simp add: isDigit_char_of)
  next
    case False
    have "n mod 10 < 10" by simp
    then have "isDigit (char_of (48 + n mod 10))" by (rule isDigit_char_of)
    with 1 False show ?thesis by (subst digitsOf.simps) simp
  qed
qed

lemma foldl_digits_append:
  "foldl (\<lambda>acc c. 10 * acc + digitValue c) a (ds @ [d]) =
     10 * foldl (\<lambda>acc c. 10 * acc + digitValue c) a ds + digitValue d"
  by simp

lemma digitsOf_value: "foldl (\<lambda>acc c. 10 * acc + digitValue c) 0 (digitsOf n) = n"
proof (induction n rule: digitsOf.induct)
  case (1 n)
  show ?case
  proof (cases "n < 10")
    case True
    then show ?thesis by (subst digitsOf.simps) (simp add: digitValue_char_of)
  next
    case False
    have d: "digitValue (char_of (48 + n mod 10)) = n mod 10"
      by (rule digitValue_char_of) simp
    from 1 False show ?thesis
      by (subst digitsOf.simps) (simp add: d)
  qed
qed

lemma isDigit_plain:
  "isDigit c \<Longrightarrow> \<not> isWhiteSpace c \<and> c \<noteq> CHR ''-'' \<and> c \<noteq> CHR ''+'' \<and> c \<noteq> CHR '','' \<and> c \<noteq> CHR 0x0A"
  by (auto simp: isDigit_def isWhiteSpace_def)

lemma parseInt_digitsOf: "parseInt (digitsOf n) = Fin (real n)"
proof -
  obtain c cs where ds: "digitsOf n = c # cs" by (cases "digitsOf n") auto
  have c: "isDigit c" using digitsOf_digits [of n] by (simp add: ds)
  have 1: "dropWhile isWhiteSpace (digitsOf n) = digitsOf n"
    using isDigit_plain [OF c] by (simp add: ds)
  have 2: "takeWhile isDigit (digitsOf n) = digitsOf n"
    using digitsOf_digits [of n] by (simp add: takeWhile_eq_all_conv)
  have 3: "hd (digitsOf n) \<noteq> CHR ''-''" "hd (digitsOf n) \<noteq> CHR ''+''"
    using isDigit_plain [OF c] by (simp_all add: ds)
  show ?thesis
    unfolding parseInt_def Let_def 1 using 3 by (simp add: 2 digitsOf_value)
qed

lemma parseInt_minus_digitsOf: "parseInt (CHR ''-'' # digitsOf n) = Fin (- real n)"
proof -
  have ws: "\<not> isWhiteSpace (CHR ''-'')" by (simp add: isWhiteSpace_def)
  have 2: "takeWhile isDigit (digitsOf n) = digitsOf n"
    using digitsOf_digits [of n] by (simp add: takeWhile_eq_all_conv)
  show ?thesis
    unfolding parseInt_def Let_def by (simp add: ws 2 digitsOf_value)
qed

lemma parseInt_numberToString: "parseInt (numberToString i) = Fin (real_of_int i)"
  by (simp add: numberToString_def parseInt_digitsOf parseInt_minus_digitsOf)

lemma numberToString_not_Nil [simp]: "numberToString i \<noteq> []"
  by (simp add: numberToString_def)

lemma numberToString_plain:
  "CHR '','' \<notin> set (numberToString i) \<and> CHR 0x0A \<notin> set (numberToString i)"
proof -
  have "\<forall>c\<in>set (numberToString i). c = CHR ''-'' \<or> isDigit c"
    using digitsOf_digits by (simp add: numberToString_def)
  moreover have "\<not> isDigit (CHR '','')" "\<not> isDigit (CHR 0x0A)"
    by (simp_all add: isDigit_def)
  ultimately show ?thesis by auto
qed

lemma resultToCsvRow_csvLine: "resultToCsvRow r = csvLine r @ [CHR 0x0A]"
  by (simp add: resultToCsvRow_def csvLine_def)

lemma CSV_HEADER_headerLine: "CSV_HEADER = headerLine @ [CHR 0x0A]"
  by (simp add: CSV_HEADER_def headerLine_def)

lemma writeCsv_lines:
  "writeCsv results = join_str (CHR 0x0A) (headerLine # map csvLine results) @ [CHR 0x0A]"
proof -
  have f: "resultToCsvRow = (\<lambda>r. csvLine r @ [CHR 0x0A])"
    by (rule ext) (rule resultToCsvRow_csvLine)
  have "writeCsv results =
      concat (map (\<lambda>l. l @ [CHR 0x0A]) (headerLine # map csvLine results))"
    by (simp add: writeCsv_def CSV_HEADER_headerLine f comp_def)
  then show ?thesis by (simp only: join_str_lines [OF list.distinct(2)])
qed

lemma optional_number_plain:
  "CHR '','' \<notin> set (case v of None \<Rightarrow> [] | Some i \<Rightarrow> numberToString i) \<and>
   CHR 0x0A \<notin> set (case v of None \<Rightarrow> [] | Some i \<Rightarrow> numberToString i)"
  using numberToString_plain by (cases v) simp_all

lemma parseOptInt_optional_number:
  "parseOptInt (Some (case v of None \<Rightarrow> [] | Some i \<Rightarrow> numberToString i)) =
     (case v of None \<Rightarrow> Null | Some i \<Rightarrow> Num (Fin (real_of_int i)))"
  by (cases v) (simp_all add: parseOptInt_def parseInt_numberToString)

lemma parseLine_csvLine:
  assumes "writable r"
  shows "parseLine (csvLine r) = rowOfResult r"
proof -
  let ?parts = "[BenchmarkResult.timestamp r,
        BenchmarkResult.facilitator r,
        BenchmarkResult.network r,
        numberToString (BenchmarkResult.sampleNum r),
        (case BenchmarkResult.facilitationMs r of None \<Rightarrow> [] | Some v \<Rightarrow> numberToString v),
        (case BenchmarkResult.roundtripMs r of None \<Rightarrow> [] | Some v \<Rightarrow> numberToString v),
        (if BenchmarkResult.success r then ''true'' else ''false''),
        BenchmarkResult.error r]"
  have "\<forall>f\<in>set ?parts. CHR '','' \<notin> set f"
    using assms numberToString_plain optional_number_plain
    by (simp add: writable_def plainText_def)
  then have sp: "split_str (CHR '','') (csvLine r) = ?parts"
    unfolding csvLine_def by (intro split_join) simp_all
  show ?thesis
    unfolding parseLine_def Let_def sp
    by (simp add: strAt_def rowOfResult_def parseInt_numberToString parseOptInt_optional_number)
qed

lemma csvLine_no_newline:
  assumes "writable r"
  shows "CHR 0x0A \<notin> set (csvLine r)"
proof -
  have "set (csvLine r) \<subseteq> insert (CHR '','')
      (set (BenchmarkResult.timestamp r) \<union> set (BenchmarkResult.facilitator r) \<union>
       set (BenchmarkResult.network r) \<union> set (numberToString (BenchmarkResult.sampleNum r)) \<union>
       set (case BenchmarkResult.facilitationMs r of None \<Rightarrow> [] | Some v \<Rightarrow> numberToString v) \<union>
       set (case BenchmarkResult.roundtripMs r of None \<Rightarrow> [] | Some v \<Rightarrow> numberToString v) \<union>
       set (if BenchmarkResult.success r then ''true'' else ''false'') \<union>
       set (BenchmarkResult.error r))"
    unfolding csvLine_def using set_join_str [of "CHR '',''"] by (rule order_trans) auto
  moreover have "CHR 0x0A \<notin> set (if BenchmarkResult.success r then ''true'' else ''false'')"
    by simp
  ultimately show ?thesis
    using assms numberToString_plain [of "BenchmarkResult.sampleNum r"]
      optional_number_plain [of "BenchmarkResult.facilitationMs r"]
      optional_number_plain [of "BenchmarkResult.roundtripMs r"]
    by (auto simp: writable_def plainText_def)
qed

lemma csvLine_last:
  "csvLine r \<noteq> [] \<and>
   last (csvLine r) = (if BenchmarkResult.error r = [] then CHR '','' else last (BenchmarkResult.error r))"
  by (simp add: csvLine_def)

lemma file_last_not_white:
  assumes "results \<noteq> [] \<longrightarrow> \<not> endsInWhiteSpace (BenchmarkResult.error (last results))"
  shows "last (headerLine # map csvLine results) \<noteq> [] \<and>
         \<not> isWhiteSpace (last (last (headerLine # map csvLine results)))"
proof (cases "results = []")
  case True
  then show ?thesis by (simp add: headerLine_def isWhiteSpace_def)
next
  case False
  then have l: "last (headerLine # map csvLine results) = csvLine (last results)"
    by (simp add: last_map)
  have "\<not> isWhiteSpace (CHR '','')" by (simp add: isWhiteSpace_def)
  then show ?thesis
    unfolding l using assms False csvLine_last [of "last results"]
    by (auto simp: endsInWhiteSpace_def)
qed

lemmas write_defs = writeCsv_def resultToCsvRow_def numberToString_def CSV_HEADER_def
  doFetch_failed_def escapeCommas_def

subsection \<open>Facilitators without a successful sample\<close>

text \<open>
  Whenever the analysis returns a report, a facilitator all of whose samples failed is
  absent from it: it is not among the facilitators, has no statistics, is in no
  comparison and not in the ranking.
\<close>

lemma analyzeRows_facilitators_successful:
  assumes "analyzeRows rows = Inr rep"
    and "\<forall>r\<in>set rows. facilitator r = f \<longrightarrow> \<not> success r"
  shows "f \<notin> set (facilitators rep)
           \<and> f \<notin> fst ` set (facilitatorStats rep)
           \<and> f \<notin> fst ` set (rankings rep)
           \<and> (\<forall>c\<in>set (comparisons rep). c_f1 c \<noteq> f \<and> c_f2 c \<noteq> f)"
proof -
  note r = assms(1)
  have fs: "set (facilitators rep) = set (map facilitator (filter success rows))"
    by (rule set_facilitators [OF r])
  have nf: "f \<notin> set (facilitators rep)" unfolding fs using assms(2) by auto
  have st: "fst ` set (facilitatorStats rep) = set (facilitators rep)"
    using fst_facilitatorStats [OF r] by (metis set_map)
  have "\<forall>c\<in>set (comparisons rep). c_f1 c \<noteq> f \<and> c_f2 c \<noteq> f"
    using comparisons_members [OF r] nf by auto
  with r nf st fs fst_rankings [OF r] show ?thesis by auto
qed

subsection \<open>The p-value in exact arithmetic\<close>

text \<open>
  In exact arithmetic, where nothing overflows, \<open>normalCDF\<close> lies between 0 and 1, and
  two groups of finite numbers with at least two elements each and a positive standard
  error have a p-value between 0 and 1.
\<close>

lemma welchTTest_pValue_exact:
  "inUnitInterval (normalCDF (Fin z)) \<and>
   (2 \<le> length a \<and> 2 \<le> length b \<and> 0 < spec_se a b \<longrightarrow>
      inUnitInterval (w_pValue (welchTTest (numbers a) (numbers b))))"
proof
  show "inUnitInterval (normalCDF (Fin z))"
    using spec_Phi_range [of z] by (simp add: normalCDF_Fin inUnitInterval_def)
next
  show "2 \<le> length a \<and> 2 \<le> length b \<and> 0 < spec_se a b \<longrightarrow>
      inUnitInterval (w_pValue (welchTTest (numbers a) (numbers b)))"
  proof
    assume h: "2 \<le> length a \<and> 2 \<le> length b \<and> 0 < spec_se a b"
    then have "w_pValue (welchTTest (numbers a) (numbers b))
        = Fin (2 * (1 - spec_Phi \<bar>spec_t a b\<bar>))"
      by (simp add: welchTTest_Fin)
    then show "inUnitInterval (w_pValue (welchTTest (numbers a) (numbers b)))"
      using spec_Phi_abs [of "spec_t a b"] by (simp add: inUnitInterval_def)
  qed
qed

subsection \<open>Exact arithmetic as an instance of rounded arithmetic\<close>

lemma jsAddR_Fin: "jsAddR Fin x y = jsAdd x y"
  by (cases x; cases y) simp_all

lemma jsMulR_Fin: "jsMulR Fin x y = jsMul x y"
  by (cases x; cases y) simp_all

lemma jsDivR_Fin: "jsDivR Fin x y = jsDiv x y"
  by (cases x; cases y) simp_all

lemma jsSubR_Fin: "jsSubR Fin x y = jsSub x y"
  by (simp add: jsSubR_def jsSub_def jsAddR_Fin)

lemma Math_pow2R_Fin: "Math_pow2R Fin x = Math_pow2 x"
  by (simp add: Math_pow2R_def Math_pow2_def jsMulR_Fin)

lemma Math_sqrtR_Fin: "Math_sqrtR Fin x = Math_sqrt x"
  by (cases x) simp_all

lemma Math_expR_Fin: "Math_expR Fin x = Math_exp x"
  by (cases x) simp_all

lemmas exact_ops = jsAddR_Fin jsMulR_Fin jsDivR_Fin jsSubR_Fin Math_pow2R_Fin Math_sqrtR_Fin
  Math_expR_Fin

lemma exact_rounding:
  "sumValuesR Fin = sumValues"
  "sumSquaresR Fin = sumSquares"
  "calculateRequiredSampleSizeR Fin = calculateRequiredSampleSize"
  "normalCDFR Fin = normalCDF"
  "welchTTestR Fin = welchTTest"
proof -
  show 1: "sumValuesR Fin = sumValues"
    by (rule ext) (simp add: sumValuesR_def sumValues_def exact_ops)
  show 2: "sumSquaresR Fin = sumSquares"
    by (rule ext)+ (simp add: sumSquaresR_def sumSquares_def exact_ops)
  show "calculateRequiredSampleSizeR Fin = calculateRequiredSampleSize"
    by (rule ext)+ (simp only: calculateRequiredSampleSizeR_def calculateRequiredSampleSize_def exact_ops)
  show 3: "normalCDFR Fin = normalCDF"
    by (rule ext) (simp only: normalCDFR_def normalCDF_def exact_ops)
  show "welchTTestR Fin = welchTTest"
    by (rule ext)+ (simp only: welchTTestR_def welchTTest_def exact_ops 1 2 3)
qed

subsection \<open>Results within the range of the format\<close>

lemma underflowThreshold_pos: "0 < underflowThreshold"
  by (simp add: underflowThreshold_def)

lemma overflowThreshold_large: "10 ^ 6 < overflowThreshold"
  by (simp add: overflowThreshold_def)

lemma overflowThreshold_pos: "0 < overflowThreshold"
  using overflowThreshold_large by simp

lemma thresholds_order: "underflowThreshold < overflowThreshold"
  by (simp add: underflowThreshold_def overflowThreshold_def)

lemma thresholds: "underflowThreshold * 10 ^ 12 * overflowThreshold < 1"
  by (simp add: underflowThreshold_def overflowThreshold_def)

lemma binary64_exact:
  "underflowThreshold < \<bar>r\<bar> \<Longrightarrow> \<bar>r\<bar> < overflowThreshold \<Longrightarrow> binary64 r = Fin r"
  by (auto simp: binary64_def)

lemma binary64_zero [simp]: "binary64 0 = Fin 0"
  using underflowThreshold_pos overflowThreshold_large by (simp add: binary64_def)

lemma binary64_cases:
  obtains (overflow) "binary64 r = PInf" "overflowThreshold \<le> r"
  | (negative_overflow) "binary64 r = NInf" "r \<le> - overflowThreshold"
  | (underflow) "binary64 r = Fin 0" "\<bar>r\<bar> \<le> underflowThreshold"
  | (exact) "binary64 r = Fin r" "underflowThreshold < \<bar>r\<bar>" "\<bar>r\<bar> < overflowThreshold"
proof -
  have o: "0 < overflowThreshold" using overflowThreshold_large by simp
  consider "overflowThreshold \<le> r" | "r \<le> - overflowThreshold"
    | "\<bar>r\<bar> < overflowThreshold" "\<bar>r\<bar> \<le> underflowThreshold"
    | "\<bar>r\<bar> < overflowThreshold" "underflowThreshold < \<bar>r\<bar>"
    by linarith
  then show thesis
  proof cases
    case 1
    then show ?thesis by (intro overflow) (simp_all add: binary64_def)
  next
    case 2
    then show ?thesis using o by (intro negative_overflow) (simp_all add: binary64_def)
  next
    case 3
    then show ?thesis by (intro underflow) (auto simp: binary64_def)
  next
    case 4
    then show ?thesis by (intro exact) (auto simp: binary64_def)
  qed
qed

lemma binary64_nonneg:
  assumes "0 \<le> r" and "r < overflowThreshold"
  obtains s where "binary64 r = Fin s" and "0 \<le> s" and "s \<le> r"
  using assms underflowThreshold_pos by (cases r rule: binary64_cases) auto

lemma binary64_near:
  assumes "\<bar>r\<bar> < overflowThreshold"
  obtains s where "binary64 r = Fin s" and "\<bar>s - r\<bar> \<le> underflowThreshold"
  using assms underflowThreshold_pos by (cases r rule: binary64_cases) auto

lemma small_constants:
  "underflowThreshold < 1 / 10 ^ 12" "1 / overflowThreshold < 1 / 10"
  "underflowThreshold < 1 / overflowThreshold"
proof -
  have o: "0 < overflowThreshold" using overflowThreshold_large by simp
  show "underflowThreshold < 1 / 10 ^ 12" by (simp add: underflowThreshold_def)
  show "1 / overflowThreshold < 1 / 10" using overflowThreshold_large by (simp add: field_simps)
  have "underflowThreshold * overflowThreshold < 1"
    by (simp add: underflowThreshold_def overflowThreshold_def)
  then show "underflowThreshold < 1 / overflowThreshold" using o by (simp add: field_simps)
qed

lemma binary64_moderate:
  "1 / 10 ^ 12 \<le> \<bar>r\<bar> \<Longrightarrow> \<bar>r\<bar> \<le> 10 ^ 6 \<Longrightarrow> binary64 r = Fin r"
  using small_constants(1) overflowThreshold_large by (intro binary64_exact) simp_all

lemma Math_pow2R_binary64:
  "Math_pow2R binary64 (Fin a) = binary64 (a * a)"
  by (simp add: Math_pow2R_def)

lemma binary64_pos:
  assumes "underflowThreshold * 10 ^ 12 < t" and "t \<le> 10 * r" and "r \<le> 10"
  shows "binary64 r = Fin r"
proof (rule binary64_exact)
  have "10 * underflowThreshold \<le> underflowThreshold * 10 ^ 12"
    using underflowThreshold_pos by simp
  then have r: "underflowThreshold < r" using assms by linarith
  then show "underflowThreshold < \<bar>r\<bar>" by linarith
  have "(10::real) < 10 ^ 6" by simp
  then have "r < overflowThreshold" using assms(3) overflowThreshold_large by linarith
  then show "\<bar>r\<bar> < overflowThreshold" using r underflowThreshold_pos by linarith
qed

lemma binary64_neg:
  assumes "underflowThreshold * 10 ^ 12 < t" and "t \<le> 10 * (- r)" and "- r \<le> 10"
  shows "binary64 r = Fin r"
proof (rule binary64_exact)
  have "10 * underflowThreshold \<le> underflowThreshold * 10 ^ 12"
    using underflowThreshold_pos by simp
  then have r: "underflowThreshold < - r" using assms by linarith
  then show "underflowThreshold < \<bar>r\<bar>" by linarith
  have "(10::real) < 10 ^ 6" by simp
  then have "- r < overflowThreshold" using assms(3) overflowThreshold_large by linarith
  then show "\<bar>r\<bar> < overflowThreshold" using r underflowThreshold_pos by linarith
qed

lemma binary64_small:
  assumes "\<bar>r\<bar> \<le> 10"
  obtains s where "binary64 r = Fin s" and "\<bar>s - r\<bar> \<le> underflowThreshold"
proof -
  have "(10::real) < 10 ^ 6" by simp
  then have "\<bar>r\<bar> < overflowThreshold" using assms overflowThreshold_large by linarith
  then show thesis using that by (rule binary64_near)
qed

subsection \<open>An overflow in the sum of a group\<close>

lemma huge_exact: "binary64 (2 ^ 1023) = Fin (2 ^ 1023)"
  by (simp add: binary64_def overflowThreshold_def underflowThreshold_def)

lemma huge_overflow: "binary64 (2 * 2 ^ 1023) = PInf"
  by (simp add: binary64_def overflowThreshold_def underflowThreshold_def)

lemma welchTTestR_overflow:
  assumes "binary64 h = Fin h" and "binary64 (2 * h) = PInf"
  shows "welchTTestR binary64 (numbers [h, h]) (numbers [0, 1]) =
           \<lparr>w_t = NaN, w_df = NaN, w_pValue = NaN\<rparr>"
    and "welchTTestR_se binary64 (numbers [h, h]) (numbers [0, 1]) = PInf"
proof -
  have 1: "sumValuesR binary64 (numbers [h, h]) = PInf"
    by (simp add: sumValuesR_def numbers_def assms)
  have 2: "sumValuesR binary64 (numbers [0, 1]) = Fin 1"
    by (simp add: sumValuesR_def numbers_def binary64_moderate)
  have 3: "sumSquaresR binary64 PInf [Num (Fin h), Num (Fin h)] = PInf"
    by (simp add: sumSquaresR_def jsSubR_def Math_pow2R_def)
  have 4: "sumSquaresR binary64 (Fin (1 / 2)) [Num (Fin 0), Num (Fin 1)] = Fin (1 / 2)"
    by (simp add: sumSquaresR_def jsSubR_def Math_pow2R_def binary64_moderate)
  have l: "length (numbers [h, h]) = 2" "length (numbers [0, 1]) = 2"
    by (simp_all add: numbers_def)
  have m: "jsDivR binary64 PInf (Fin 2) = PInf" "jsDivR binary64 (Fin 1) (Fin 2) = Fin (1 / 2)"
    "jsSubR binary64 (Fin 2) (Fin 1) = Fin 1" "jsDivR binary64 PInf (Fin 1) = PInf"
    "jsDivR binary64 (Fin (1 / 2)) (Fin 1) = Fin (1 / 2)"
    "jsDivR binary64 (Fin (1 / 2)) (Fin 2) = Fin (1 / 4)"
    by (simp_all add: jsSubR_def binary64_moderate)
  show "welchTTestR_se binary64 (numbers [h, h]) (numbers [0, 1]) = PInf"
    unfolding welchTTestR_se_def Let_def l 1 2 by (simp add: m 3 4 binary64_moderate)
  show "welchTTestR binary64 (numbers [h, h]) (numbers [0, 1]) =
           \<lparr>w_t = NaN, w_df = NaN, w_pValue = NaN\<rparr>"
    unfolding welchTTestR_def Let_def l 1 2
    by (simp add: m 3 4 jsSubR_def Math_pow2R_def normalCDFR_def binary64_moderate)
qed

subsection \<open>The normal distribution function within the range of the format\<close>

text \<open>
  Bounds for the polynomial of the approximation in the form in which the code evaluates
  it, and the evaluation of \<open>normalCDF\<close> step by step: every intermediate result is
  either kept exactly or replaced by zero, and the result stays between 0 and 1.
\<close>

lemma horner_bounds:
  fixes t :: real
  assumes t0: "0 \<le> t" and t1: "t \<le> 1"
  shows "23 / 25 \<le> (1.061405429 * t + - 1.453152027) * t + 1.421413741"
    and "1 / 5 \<le> (((1.061405429 * t + - 1.453152027) * t + 1.421413741) * t
                     + - 0.284496736) * t + 0.254829592"
    and "((((1.061405429 * t + - 1.453152027) * t + 1.421413741) * t
                     + - 0.284496736) * t + 0.254829592) * t \<le> 1 - 1 / 10 ^ 9"
proof -
  define m2 where "m2 = t\<^sup>2"
  define m3 where "m3 = t ^ 3"
  define m4 where "m4 = t ^ 4"
  define m5 where "m5 = t ^ 5"
  have m2: "0 \<le> m2" by (simp add: m2_def)
  have d1: "m2 \<le> t" unfolding m2_def using power_decreasing[of 1 2 t] t0 t1 by simp
  have d2: "m3 \<le> m2" unfolding m2_def m3_def using t0 t1 by (intro power_decreasing) simp_all
  have d3: "m4 \<le> m3" unfolding m4_def m3_def using t0 t1 by (intro power_decreasing) simp_all
  have d4: "m5 \<le> m4" unfolding m4_def m5_def using t0 t1 by (intro power_decreasing) simp_all
  have "0 \<le> (t - 0.2845)\<^sup>2" by simp
  then have sq1: "0 \<le> m2 - 2 * 0.2845 * t + 0.2845 * 0.2845"
    by (simp add: m2_def power2_eq_square algebra_simps)
  have "0 \<le> (t - 0.6845)\<^sup>2" by simp
  then have sq0: "0 \<le> m2 - 2 * 0.6845 * t + 0.6845 * 0.6845"
    by (simp add: m2_def power2_eq_square algebra_simps)
  have "0 \<le> t\<^sup>2 * (t - 0.6845)\<^sup>2" by simp
  also have "t\<^sup>2 * (t - 0.6845)\<^sup>2 = m4 - 2 * 0.6845 * m3 + 0.6845 * 0.6845 * m2"
    by (simp add: m2_def m3_def m4_def power2_eq_square power3_eq_cube power4_eq_xxxx algebra_simps)
  finally have sq2: "0 \<le> m4 - 2 * 0.6845 * m3 + 0.6845 * 0.6845 * m2" .
  have "0 \<le> t\<^sup>2 * (1 - t)\<^sup>2" by simp
  also have "t\<^sup>2 * (1 - t)\<^sup>2 = m2 - 2 * m3 + m4"
    by (simp add: m2_def m3_def m4_def power2_eq_square power3_eq_cube power4_eq_xxxx algebra_simps)
  finally have c: "0 \<le> m2 - 2 * m3 + m4" .
  have e1: "(1.061405429 * t + - 1.453152027) * t + 1.421413741
      = 1.421413741 - 1.453152027 * t + 1.061405429 * m2"
    by (simp add: m2_def power2_eq_square algebra_simps)
  have e2: "(((1.061405429 * t + - 1.453152027) * t + 1.421413741) * t
                     + - 0.284496736) * t + 0.254829592
      = 0.254829592 - 0.284496736 * t + 1.421413741 * m2 - 1.453152027 * m3 + 1.061405429 * m4"
    by (simp add: m2_def m3_def m4_def power2_eq_square power3_eq_cube power4_eq_xxxx algebra_simps)
  have e3: "((((1.061405429 * t + - 1.453152027) * t + 1.421413741) * t
                     + - 0.284496736) * t + 0.254829592) * t
      = 0.254829592 * t - 0.284496736 * m2 + 1.421413741 * m3 - 1.453152027 * m4 + 1.061405429 * m5"
    by (simp add: m2_def m3_def m4_def m5_def power2_eq_square power3_eq_cube power4_eq_xxxx
        numeral_eq_Suc algebra_simps)
  show "23 / 25 \<le> (1.061405429 * t + - 1.453152027) * t + 1.421413741"
    unfolding e1 using sq0 t0 t1 by simp
  show "1 / 5 \<le> (((1.061405429 * t + - 1.453152027) * t + 1.421413741) * t
                     + - 0.284496736) * t + 0.254829592"
    unfolding e2 using sq1 sq2 m2 d2 t0 by simp
  show "((((1.061405429 * t + - 1.453152027) * t + 1.421413741) * t
                     + - 0.284496736) * t + 0.254829592) * t \<le> 1 - 1 / 10 ^ 9"
    unfolding e3 using d1 d2 d3 d4 c t1 by simp
qed

lemma horner_binary64:
  fixes t :: real
  assumes ut: "underflowThreshold * 10 ^ 12 < t" and t1: "t \<le> 1"
  shows "\<exists>Q. jsMulR binary64
              (jsAddR binary64 (jsMulR binary64 (jsAddR binary64 (jsMulR binary64
                (jsAddR binary64 (jsMulR binary64 (jsAddR binary64
                  (jsMulR binary64 (Fin 1.061405429) (Fin t)) (Fin (- 1.453152027))) (Fin t))
                  (Fin 1.421413741)) (Fin t)) (Fin (- 0.284496736))) (Fin t)) (Fin 0.254829592))
              (Fin t) = Fin Q \<and> 0 \<le> Q \<and> Q \<le> 1 - 1 / (2 * 10 ^ 9)"
proof -
  have u0: "0 < underflowThreshold" by (rule underflowThreshold_pos)
  have u12: "underflowThreshold < 1 / 10 ^ 12" by (rule small_constants(1))
  have "0 < underflowThreshold * 10 ^ 12" using u0 by simp
  then have t0: "0 < t" using ut by linarith
  have t0': "0 \<le> t" using t0 by simp
  define v1 where "v1 = 1.061405429 * t"
  define v2 where "v2 = v1 + - 1.453152027"
  define v3 where "v3 = v2 * t"
  define v4 where "v4 = v3 + 1.421413741"
  define v5 where "v5 = v4 * t"
  define c where "c = v5 + - 0.284496736"
  have b1: "t \<le> v1" "v1 \<le> 2" using t0 t1 by (simp_all add: v1_def)
  have b2: "39 / 100 \<le> - v2" "- v2 \<le> 3 / 2" using t0 t1 by (simp_all add: v2_def v1_def)
  have b3: "39 / 100 * t \<le> - v3" "- v3 \<le> 3 / 2"
  proof -
    have "39 / 100 * t \<le> (- v2) * t" using b2 t0' by (intro mult_right_mono)
    then show "39 / 100 * t \<le> - v3" by (simp add: v3_def)
    have "(- v2) * t \<le> 3 / 2 * 1" using b2 t0' t1 by (intro mult_mono) simp_all
    then show "- v3 \<le> 3 / 2" by (simp add: v3_def)
  qed
  have b4: "23 / 25 \<le> v4" "v4 \<le> 3 / 2"
  proof -
    show "23 / 25 \<le> v4" unfolding v4_def v3_def v2_def v1_def by (rule horner_bounds(1) [OF t0' t1])
    have "0 \<le> 39 / 100 * t" using t0' by simp
    then have "0 \<le> - v3" using b3(1) by linarith
    then show "v4 \<le> 3 / 2" by (simp add: v4_def)
  qed
  have b5: "23 / 25 * t \<le> v5" "v5 \<le> 3 / 2"
  proof -
    show "23 / 25 * t \<le> v5" unfolding v5_def using b4 t0' by (intro mult_right_mono)
    have "v4 * t \<le> 3 / 2 * 1" using b4 t0' t1 by (intro mult_mono) simp_all
    then show "v5 \<le> 3 / 2" by (simp add: v5_def)
  qed
  have b6: "- (3 / 10) \<le> c" "c \<le> 3 / 2"
  proof -
    have "0 \<le> 23 / 25 * t" using t0' by simp
    then have "0 \<le> v5" using b5(1) by linarith
    then show "- (3 / 10) \<le> c" by (simp add: c_def)
    show "c \<le> 3 / 2" using b5(2) by (simp add: c_def)
  qed
  have P: "1 / 5 \<le> c * t + 0.254829592"
    unfolding c_def v5_def v4_def v3_def v2_def v1_def by (rule horner_bounds(2) [OF t0' t1])
  have q: "(c * t + 0.254829592) * t \<le> 1 - 1 / 10 ^ 9"
    unfolding c_def v5_def v4_def v3_def v2_def v1_def by (rule horner_bounds(3) [OF t0' t1])
  have s1: "jsMulR binary64 (Fin 1.061405429) (Fin t) = Fin v1"
    using binary64_pos [OF ut, of v1] b1 by (simp add: v1_def)
  have s2: "jsAddR binary64 (Fin v1) (Fin (- 1.453152027)) = Fin v2"
    using binary64_neg [OF ut, of v2] b2 t1 by (simp add: v2_def)
  have s3: "jsMulR binary64 (Fin v2) (Fin t) = Fin v3"
    using binary64_neg [OF ut, of v3] b3 t0 by (simp add: v3_def)
  have s4: "jsAddR binary64 (Fin v3) (Fin 1.421413741) = Fin v4"
    using binary64_pos [OF ut, of v4] b4 t1 by (simp add: v4_def)
  have s5: "jsMulR binary64 (Fin v4) (Fin t) = Fin v5"
    using binary64_pos [OF ut, of v5] b5 t0 by (simp add: v5_def)
  obtain w where s6: "binary64 c = Fin w" and w: "\<bar>w - c\<bar> \<le> underflowThreshold"
    using b6 by (auto intro: binary64_small [of c])
  have s6': "jsAddR binary64 (Fin v5) (Fin (- 0.284496736)) = Fin w"
    using s6 by (simp add: c_def)
  have bw: "\<bar>w\<bar> \<le> 2" using w b6 u12 by simp
  have wt: "\<bar>w * t\<bar> \<le> 2"
  proof -
    have "\<bar>w\<bar> * \<bar>t\<bar> \<le> 2 * 1" using bw t0' t1 by (intro mult_mono) simp_all
    then show ?thesis by (simp add: abs_mult)
  qed
  obtain w' where s7: "binary64 (w * t) = Fin w'" and w': "\<bar>w' - w * t\<bar> \<le> underflowThreshold"
    using wt by (auto intro: binary64_small [of "w * t"])
  have s7': "jsMulR binary64 (Fin w) (Fin t) = Fin w'" using s7 by simp
  have d: "\<bar>w' - c * t\<bar> \<le> 2 * underflowThreshold"
  proof -
    have "\<bar>(w - c) * t\<bar> \<le> underflowThreshold * 1"
      unfolding abs_mult using w t0' t1 by (intro mult_mono) simp_all
    then have "\<bar>w * t - c * t\<bar> \<le> underflowThreshold" by (simp add: algebra_simps)
    then show ?thesis using w' by linarith
  qed
  define v8 where "v8 = w' + 0.254829592"
  have b8: "1 / 10 \<le> v8" "v8 \<le> c * t + 0.254829592 + 2 * underflowThreshold" "v8 \<le> 3"
  proof -
    show "1 / 10 \<le> v8" using d P u12 by (simp add: v8_def)
    show 1: "v8 \<le> c * t + 0.254829592 + 2 * underflowThreshold" using d by (simp add: v8_def)
    have "c * t \<le> 3 / 2 * t" using b6 t0' by (intro mult_right_mono)
    then have "c * t \<le> 3 / 2" using t1 by linarith
    then show "v8 \<le> 3" using 1 u12 by simp
  qed
  have s8: "jsAddR binary64 (Fin w') (Fin 0.254829592) = Fin v8"
    using binary64_pos [OF ut, of v8] b8 t1 by (simp add: v8_def)
  define Q where "Q = v8 * t"
  have bQ: "1 / 10 * t \<le> Q" "Q \<le> 1 - 1 / (2 * 10 ^ 9)"
  proof -
    show "1 / 10 * t \<le> Q" unfolding Q_def using b8(1) t0' by (intro mult_right_mono)
    have "v8 * t \<le> (c * t + 0.254829592 + 2 * underflowThreshold) * t"
      using b8(2) t0' by (intro mult_right_mono)
    also have "\<dots> = (c * t + 0.254829592) * t + 2 * underflowThreshold * t"
      by (simp add: algebra_simps)
    also have "\<dots> \<le> (1 - 1 / 10 ^ 9) + 2 * underflowThreshold * 1"
      using q u0 t0' t1 by (intro add_mono mult_left_mono) simp_all
    also have "\<dots> \<le> 1 - 1 / (2 * 10 ^ 9)" using u12 by simp
    finally show "Q \<le> 1 - 1 / (2 * 10 ^ 9)" by (simp add: Q_def)
  qed
  have s9: "jsMulR binary64 (Fin v8) (Fin t) = Fin Q"
    using binary64_pos [OF ut, of Q] bQ t0 by (simp add: Q_def)
  have "0 \<le> 1 / 10 * t" using t0' by simp
  then have "0 \<le> Q" using bQ(1) by linarith
  then show ?thesis
    unfolding s1 s2 s3 s4 s5 s6' s7' s8 s9 using bQ(2) by blast
qed

lemma t_binary64:
  assumes u0: "0 \<le> u" and uo: "u < overflowThreshold"
  shows "\<exists>t. jsDivR binary64 (Fin 1)
               (jsAddR binary64 (Fin 1) (jsMulR binary64 (Fin 0.3275911) (Fin u))) = Fin t
             \<and> underflowThreshold * 10 ^ 12 < t \<and> t \<le> 1"
proof -
  have o: "2 < overflowThreshold" using overflowThreshold_large by simp
  have "0 \<le> 0.3275911 * u" "0.3275911 * u < overflowThreshold" using u0 uo by simp_all
  then obtain v where v: "binary64 (0.3275911 * u) = Fin v" and v0: "0 \<le> v"
    and vu: "v \<le> 0.3275911 * u"
    by (rule binary64_nonneg)
  have d1: "1 + v < overflowThreshold" using vu uo o by simp
  have d: "binary64 (1 + v) = Fin (1 + v)"
    using v0 d1 small_constants(1) by (intro binary64_exact) simp_all
  define t where "t = 1 / (1 + v)"
  have "1 / overflowThreshold < 1 / (1 + v)"
    using d1 v0 by (intro divide_strict_left_mono) simp_all
  moreover have "underflowThreshold * 10 ^ 12 < 1 / overflowThreshold"
    using thresholds overflowThreshold_pos by (simp add: field_simps)
  ultimately have tl: "underflowThreshold * 10 ^ 12 < t" unfolding t_def by linarith
  have t1: "t \<le> 1" unfolding t_def using v0 by (simp add: divide_le_eq)
  have "underflowThreshold \<le> underflowThreshold * 10 ^ 12"
    using underflowThreshold_pos by simp
  then have tu: "underflowThreshold < t" using tl by linarith
  have bt: "binary64 t = Fin t"
    using tu t1 o underflowThreshold_pos by (intro binary64_exact) simp_all
  have mv: "jsMulR binary64 (Fin 0.3275911) (Fin u) = Fin v" using v by simp
  have ad: "jsAddR binary64 (Fin 1) (Fin v) = Fin (1 + v)" using d by simp
  have dv: "jsDivR binary64 (Fin 1) (Fin (1 + v)) = Fin t" using bt v0 by (simp add: t_def)
  show ?thesis unfolding mv ad dv using tl t1 by blast
qed

lemma exp_binary64:
  "\<exists>e. Math_expR binary64 (jsMulR binary64 (jsNeg (Fin u)) (Fin u)) = Fin e \<and> 0 \<le> e \<and> e \<le> 1"
proof -
  have m: "jsMulR binary64 (jsNeg (Fin u)) (Fin u) = binary64 (- (u * u))" by simp
  have n: "\<not> overflowThreshold \<le> - (u * u)"
    using zero_le_square [of u] overflowThreshold_pos by linarith
  show ?thesis
  proof (cases "- (u * u)" rule: binary64_cases)
    case overflow
    then show ?thesis using n by simp
  next
    case negative_overflow
    then show ?thesis unfolding m by simp
  next
    case underflow
    then show ?thesis unfolding m by (simp add: binary64_moderate)
  next
    case exact
    have e1: "exp (- (u * u)) \<le> 1" by simp
    have "2 < overflowThreshold" using overflowThreshold_large by simp
    then have "exp (- (u * u)) < overflowThreshold" using e1 by linarith
    with exp_ge_zero [of "- (u * u)"] obtain s where s: "binary64 (exp (- (u * u))) = Fin s" "0 \<le> s" "s \<le> exp (- (u * u))"
      by (rule binary64_nonneg)
    have "s \<le> 1" using s(3) e1 by linarith
    then show ?thesis unfolding m exact(1) using s(1,2) by simp
  qed
qed

lemma sqrt2_binary64: "Math_sqrtR binary64 (Fin 2) = Fin (sqrt 2)"
proof -
  have 1: "1 \<le> sqrt 2" by simp
  have "sqrt 2 \<le> sqrt 4" by (intro real_sqrt_le_mono) simp
  then have 2: "sqrt 2 \<le> 2" by simp
  have u: "underflowThreshold < 1" using small_constants(1) by simp
  have o: "2 < overflowThreshold" using overflowThreshold_large by simp
  have "binary64 (sqrt 2) = Fin (sqrt 2)"
  proof (rule binary64_exact)
    show "underflowThreshold < \<bar>sqrt 2\<bar>" using 1 u by linarith
    show "\<bar>sqrt 2\<bar> < overflowThreshold" using 1 2 o by linarith
  qed
  then show ?thesis by simp
qed

lemma x_binary64:
  assumes "x0 \<noteq> NaN"
  obtains (infinite) "jsDivR binary64 (Math_abs x0) (Fin (sqrt 2)) = PInf"
  | (finite) u where "jsDivR binary64 (Math_abs x0) (Fin (sqrt 2)) = Fin u"
      and "0 \<le> u" and "u < overflowThreshold"
proof (cases x0)
  case (Fin z)
  have e: "jsDivR binary64 (Math_abs x0) (Fin (sqrt 2)) = binary64 (\<bar>z\<bar> / sqrt 2)"
    by (simp add: Fin)
  have n: "0 \<le> \<bar>z\<bar> / sqrt 2" by simp
  show ?thesis
  proof (cases "\<bar>z\<bar> / sqrt 2" rule: binary64_cases)
    case overflow
    then show ?thesis using infinite e by simp
  next
    case negative_overflow
    then show ?thesis using n overflowThreshold_pos by linarith
  next
    case underflow
    then show ?thesis using finite [of 0] e overflowThreshold_pos by simp
  next
    case exact
    then show ?thesis using finite [of "\<bar>z\<bar> / sqrt 2"] e n by simp
  qed
next
  case PInf
  then show ?thesis using infinite by simp
next
  case NInf
  then show ?thesis using infinite by simp
next
  case NaN
  then show ?thesis using assms by simp
qed

lemma normalCDFR_binary64_form:
  assumes "x0 \<noteq> NaN"
  shows "\<exists>y. normalCDFR binary64 x0 =
           jsMulR binary64 (Fin 0.5)
             (jsAddR binary64 (Fin 1)
                (jsMulR binary64 (if jsLt x0 (Fin 0) then Fin (- 1) else Fin 1) (Fin y)))
           \<and> 1 / (2 * 10 ^ 9) \<le> y \<and> y \<le> 1"
  using assms
proof (cases x0 rule: x_binary64)
  case infinite
  have "normalCDFR binary64 x0 =
           jsMulR binary64 (Fin 0.5)
             (jsAddR binary64 (Fin 1)
                (jsMulR binary64 (if jsLt x0 (Fin 0) then Fin (- 1) else Fin 1) (Fin 1)))"
    unfolding normalCDFR_def Let_def sqrt2_binary64 infinite
    by (simp add: jsSubR_def binary64_moderate)
  then show ?thesis by (intro exI [of _ 1]) simp
next
  case (finite u)
  obtain t where ht: "jsDivR binary64 (Fin 1)
               (jsAddR binary64 (Fin 1) (jsMulR binary64 (Fin 0.3275911) (Fin u))) = Fin t"
    and tl: "underflowThreshold * 10 ^ 12 < t" and t1: "t \<le> 1"
    using t_binary64 [OF finite(2,3)] by blast
  obtain Q where hQ: "jsMulR binary64
              (jsAddR binary64 (jsMulR binary64 (jsAddR binary64 (jsMulR binary64
                (jsAddR binary64 (jsMulR binary64 (jsAddR binary64
                  (jsMulR binary64 (Fin 1.061405429) (Fin t)) (Fin (- 1.453152027))) (Fin t))
                  (Fin 1.421413741)) (Fin t)) (Fin (- 0.284496736))) (Fin t)) (Fin 0.254829592))
              (Fin t) = Fin Q" and Q0: "0 \<le> Q" and Q1: "Q \<le> 1 - 1 / (2 * 10 ^ 9)"
    using horner_binary64 [OF tl t1] by blast
  obtain e where he: "Math_expR binary64 (jsMulR binary64 (jsNeg (Fin u)) (Fin u)) = Fin e"
    and e0: "0 \<le> e" and e1: "e \<le> 1"
    using exp_binary64 [of u] by blast
  have "Q * e \<le> Q * 1" using Q0 e1 by (intro mult_left_mono)
  then have Qe: "Q * e \<le> 1 - 1 / (2 * 10 ^ 9)" using Q1 by simp
  have "2 < overflowThreshold" using overflowThreshold_large by simp
  then have "Q * e < overflowThreshold" using Qe by simp
  moreover have "0 \<le> Q * e" using Q0 e0 by simp
  ultimately obtain E where bE: "binary64 (Q * e) = Fin E" and E0: "0 \<le> E" and E1: "E \<le> Q * e"
    using binary64_nonneg [of "Q * e"] by blast
  have hE: "jsMulR binary64 (Fin Q) (Fin e) = Fin E" using bE by simp
  have y: "1 / (2 * 10 ^ 9) \<le> 1 - E" "1 - E \<le> 1" using E0 E1 Qe by simp_all
  have "binary64 (1 - E) = Fin (1 - E)" using y by (intro binary64_moderate) simp_all
  then have hy: "jsSubR binary64 (Fin 1) (Fin E) = Fin (1 - E)" by (simp add: jsSubR_def)
  show ?thesis
    unfolding normalCDFR_def Let_def sqrt2_binary64 finite(1) ht hQ he hE hy
    using y by blast
qed

lemma normalCDFR_binary64_upper:
  assumes "x0 \<noteq> NaN" and "\<not> jsLt x0 (Fin 0)"
  shows "\<exists>c. normalCDFR binary64 x0 = Fin c \<and> 1 / 2 \<le> c \<and> c \<le> 1"
proof -
  obtain y where n: "normalCDFR binary64 x0 =
           jsMulR binary64 (Fin 0.5) (jsAddR binary64 (Fin 1) (jsMulR binary64 (Fin 1) (Fin y)))"
    and y0: "1 / (2 * 10 ^ 9) \<le> y" and y1: "y \<le> 1"
    using normalCDFR_binary64_form [OF assms(1)] assms(2) by auto
  have 1: "binary64 y = Fin y" using y0 y1 by (intro binary64_moderate) simp_all
  have 2: "binary64 (1 + y) = Fin (1 + y)" using y0 y1 by (intro binary64_moderate) simp_all
  have 3: "binary64 ((1 + y) / 2) = Fin ((1 + y) / 2)"
    using y0 y1 by (intro binary64_moderate) simp_all
  have "normalCDFR binary64 x0 = Fin ((1 + y) / 2)" unfolding n by (simp add: 1 2 3)
  moreover have "1 / 2 \<le> (1 + y) / 2" "(1 + y) / 2 \<le> 1" using y0 y1 by simp_all
  ultimately show ?thesis by blast
qed

lemma normalCDFR_binary64_lower:
  assumes "jsLt x0 (Fin 0)"
  shows "\<exists>c. normalCDFR binary64 x0 = Fin c \<and> 0 \<le> c \<and> c \<le> 1 / 2"
proof -
  have "x0 \<noteq> NaN" using assms by auto
  then obtain y where n: "normalCDFR binary64 x0 =
           jsMulR binary64 (Fin 0.5) (jsAddR binary64 (Fin 1) (jsMulR binary64 (Fin (- 1)) (Fin y)))"
    and y0: "1 / (2 * 10 ^ 9) \<le> y" and y1: "y \<le> 1"
    using normalCDFR_binary64_form [of x0] assms by auto
  have o: "2 < overflowThreshold" using overflowThreshold_large by simp
  have 1: "binary64 (- y) = Fin (- y)" using y0 y1 by (intro binary64_moderate) simp_all
  have "0 \<le> 1 - y" "1 - y < overflowThreshold" using y1 y0 o by simp_all
  then obtain s where 2: "binary64 (1 - y) = Fin s" and s0: "0 \<le> s" and s1: "s \<le> 1 - y"
    by (rule binary64_nonneg)
  have "0 \<le> s / 2" "s / 2 < overflowThreshold" using s0 s1 y0 o by simp_all
  then obtain c where 3: "binary64 (s / 2) = Fin c" and c0: "0 \<le> c" and c1: "c \<le> s / 2"
    by (rule binary64_nonneg)
  have "normalCDFR binary64 x0 = Fin c" unfolding n by (simp add: 1 2 3)
  moreover have "c \<le> 1 / 2" using c1 s1 y0 by simp
  ultimately show ?thesis using c0 by blast
qed

lemma normalCDFR_NaN: "normalCDFR rd NaN = NaN"
  by (simp add: normalCDFR_def jsSubR_def)

lemma w_pValue_welchTTestR:
  "w_pValue (welchTTestR rd group1 group2) =
     jsMulR rd (Fin 2)
       (jsSubR rd (Fin 1) (normalCDFR rd (Math_abs (w_t (welchTTestR rd group1 group2)))))"
  unfolding welchTTestR_def Let_def by simp

lemma pValue_binary64:
  assumes "t \<noteq> NaN"
  shows "inUnitInterval
           (jsMulR binary64 (Fin 2) (jsSubR binary64 (Fin 1) (normalCDFR binary64 (Math_abs t))))"
proof -
  have a: "Math_abs t \<noteq> NaN" "\<not> jsLt (Math_abs t) (Fin 0)"
    using assms by (cases t; simp)+
  obtain c where n: "normalCDFR binary64 (Math_abs t) = Fin c" and c0: "1 / 2 \<le> c" and c1: "c \<le> 1"
    using normalCDFR_binary64_upper [OF a] by blast
  have o: "2 < overflowThreshold" using overflowThreshold_large by simp
  have "0 \<le> 1 - c" "1 - c < overflowThreshold" using c0 c1 o by simp_all
  then obtain s where 1: "binary64 (1 - c) = Fin s" and s0: "0 \<le> s" and s1: "s \<le> 1 - c"
    by (rule binary64_nonneg)
  have "0 \<le> 2 * s" "2 * s < overflowThreshold" using s0 s1 c0 o by simp_all
  then obtain p where 2: "binary64 (2 * s) = Fin p" and p0: "0 \<le> p" and p1: "p \<le> 2 * s"
    by (rule binary64_nonneg)
  have "jsMulR binary64 (Fin 2) (jsSubR binary64 (Fin 1) (normalCDFR binary64 (Math_abs t))) = Fin p"
    unfolding n by (simp add: jsSubR_def 1 2)
  moreover have "p \<le> 1" using p1 s1 c0 by simp
  ultimately show ?thesis using p0 by (simp add: inUnitInterval_def)
qed

subsection \<open>The claims\<close>

text \<open>
  C1 (as the code has it).  \<open>welchTTest\<close> has no check of its input and never fails.
  When at least one of the two groups has fewer than two elements it returns a result in
  which the statistic, the degrees of freedom and the p-value are all \<open>NaN\<close>.
\<close>

theorem welchTTest_short_group_returns_NaN:
  assumes "length group1 < 2 \<or> length group2 < 2"
  shows "welchTTest group1 group2 = \<lparr>w_t = NaN, w_df = NaN, w_pValue = NaN\<rparr>"
  using assms by (rule welchTTest_short)

theorem welchTTest_short_group_returns_NaN_witness:
  "length ([] :: jsval list) < 2 \<and>
   welchTTest [] [Num (Fin 1), Num (Fin 2)] = \<lparr>w_t = NaN, w_df = NaN, w_pValue = NaN\<rparr>"
  using welchTTest_short_group_returns_NaN [of "[]" "[Num (Fin 1), Num (Fin 2)]"]
  by simp

text \<open>
  The claim C1 as stated (an \<open>InvalidInput\<close> failure, never a result with \<open>NaN\<close>)
  does not hold: for a group of one element and a group of two the function returns,
  and every field of the result is \<open>NaN\<close>.
\<close>

theorem welchTTest_singleton_counterexample:
  "welchTTest [Num (Fin 5)] [Num (Fin 1), Num (Fin 2)] =
     \<lparr>w_t = NaN, w_df = NaN, w_pValue = NaN\<rparr>"
  by (simp add: welchTTest_def Let_def sumValues_def sumSquares_def jsSub_def Math_pow2_def)

text \<open>
  C2 (as the code has it).  \<open>calculateRequiredSampleSize\<close> has no check of its input
  and never fails.  With a minimum detectable difference of zero it divides by zero: it
  returns \<open>Infinity\<close> when \<open>Math.pow(stdDev, 2)\<close> is not zero, and \<open>NaN\<close> when
  \<open>Math.pow(stdDev, 2)\<close> is zero or the standard deviation is \<open>NaN\<close>.  The square is
  zero when the standard deviation is zero, and also when the square underflows, that is
  when the exact square is at most \<open>2^-1075\<close>.
\<close>

theorem calculateRequiredSampleSizeR_zero_difference:
  "calculateRequiredSampleSizeR binary64 std (Fin 0) =
     (if Math_pow2R binary64 std = Fin 0 \<or> std = NaN then NaN else PInf) \<and>
   (Math_pow2R binary64 (Fin a) = Fin 0) = (a\<^sup>2 \<le> 1 / 2 ^ 1075)"
proof
  have c: "jsMulR binary64 (Fin 2) (Math_pow2R binary64 (jsAddR binary64 (Fin 1.96) (Fin 0.84)))
      = Fin 15.68"
    by (simp add: Math_pow2R_def binary64_moderate)
  have z: "Math_pow2R binary64 (Fin 0) = Fin 0" by (simp add: Math_pow2R_def)
  have e: "calculateRequiredSampleSizeR binary64 std (Fin 0)
      = Math_ceil (jsDivR binary64 (jsMulR binary64 (Fin 15.68) (Math_pow2R binary64 std)) (Fin 0))"
    unfolding calculateRequiredSampleSizeR_def Let_def c z by (rule refl)
  show "calculateRequiredSampleSizeR binary64 std (Fin 0) =
     (if Math_pow2R binary64 std = Fin 0 \<or> std = NaN then NaN else PInf)"
  proof (cases std)
    case (Fin a)
    show ?thesis
    proof (cases "a * a" rule: binary64_cases)
      case overflow
      then show ?thesis unfolding e by (simp add: Fin Math_pow2R_def)
    next
      case negative_overflow
      then have False using overflowThreshold_large zero_le_square [of a] by simp
      then show ?thesis ..
    next
      case underflow
      then show ?thesis unfolding e by (simp add: Fin Math_pow2R_def)
    next
      case exact
      have p: "0 < a * a" using exact(2) underflowThreshold_pos zero_le_square [of a] by simp
      have "binary64 (15.68 * (a * a)) = PInf \<or> binary64 (15.68 * (a * a)) = Fin (15.68 * (a * a))"
        using p exact(2) underflowThreshold_pos by (auto simp: binary64_def)
      then show ?thesis unfolding e using p exact(1) exact(2)
        by (auto simp: Fin Math_pow2R_def)
    qed
  qed (use e in \<open>simp_all add: Math_pow2R_def\<close>)
  have n: "\<not> a * a \<le> - overflowThreshold"
    using zero_le_square [of a] overflowThreshold_pos by linarith
  have m: "\<bar>a * a\<bar> = a * a" by simp
  show "(Math_pow2R binary64 (Fin a) = Fin 0) = (a\<^sup>2 \<le> 1 / 2 ^ 1075)"
    unfolding Math_pow2R_binary64 binary64_def power2_eq_square underflowThreshold_def [symmetric]
    using n thresholds_order underflowThreshold_pos by (simp only: m split: if_splits) auto
qed

theorem calculateRequiredSampleSizeR_zero_difference_witness:
  "calculateRequiredSampleSizeR binary64 (Fin (1 / 2 ^ 600)) (Fin 0) = NaN \<and>
   calculateRequiredSampleSizeR binary64 (Fin 0) (Fin 0) = NaN \<and>
   calculateRequiredSampleSizeR binary64 PInf (Fin 0) = PInf"
proof -
  have "(1 / 2 ^ 600 :: real)\<^sup>2 \<le> 1 / 2 ^ 1075"
    by (simp add: power2_eq_square)
  then show ?thesis
    using calculateRequiredSampleSizeR_zero_difference [of "Fin (1 / 2 ^ 600)" "1 / 2 ^ 600"]
      calculateRequiredSampleSizeR_zero_difference [of "Fin 0" 0]
      calculateRequiredSampleSizeR_zero_difference [of PInf 0]
    by (simp add: Math_pow2R_def)
qed

text \<open>
  The claim C2 as stated (an \<open>InvalidInput\<close> failure, never infinity) does not hold:
  for a standard deviation of 10 and a difference of 0 the function returns \<open>Infinity\<close>,
  in exact arithmetic and within the range of the format alike.
\<close>

theorem calculateRequiredSampleSize_counterexample:
  "calculateRequiredSampleSize (Fin 10) (Fin 0) = PInf \<and>
   calculateRequiredSampleSizeR binary64 (Fin 10) (Fin 0) = PInf"
  by (simp add: calculateRequiredSampleSize_def Math_pow2_def calculateRequiredSampleSizeR_def
      Math_pow2R_def binary64_moderate)

text \<open>
  C3.  The claim: a facilitator all of whose samples failed appears in the report, marked
  as having no data, and is left out of the comparisons and the ranking.  The summaries
  of the drivers do report such an endpoint (\<open>No successful samples\<close>); the analysis
  script does not.  \<open>analyzeData\<close> takes its facilitators from the successful rows only,
  so for the file that a pilot writes from a successful sample of \<open>A\<close> and a failed
  sample of \<open>B\<close> the report counts two records and one success, and its facilitators,
  its statistics and its ranking hold \<open>A\<close> alone: nothing in the report names \<open>B\<close>.
  On the same results the summary of the pilot reports \<open>B\<close> as without successful
  samples.
\<close>

theorem analyzeData_omits_failed_facilitator:
  "writeCsv results_one_failed = file_one_failed \<and>
   map_sum id totalRecords (analyzeData file_one_failed) = Inr 2 \<and>
   map_sum id successful (analyzeData file_one_failed) = Inr 1 \<and>
   map_sum id facilitators (analyzeData file_one_failed) = Inr [Some ''A''] \<and>
   map_sum id (map fst \<circ> facilitatorStats) (analyzeData file_one_failed) = Inr [Some ''A''] \<and>
   map_sum id (map fst \<circ> rankings) (analyzeData file_one_failed) = Inr [Some ''A''] \<and>
   map_sum id comparisons (analyzeData file_one_failed) = Inr [] \<and>
   runPilot_summary results_one_failed ''A'' = Samples 1 1 1 \<and>
   runPilot_summary results_one_failed ''B'' = NoSuccessfulSamples"
proof -
  obtain rep where r: "analyzeRows (parseCSV file_one_failed) = Inr rep"
    using analyzeRows_completes [of "parseCSV file_one_failed"]
    by (auto simp: parse_file_one_failed)
  have fs: "facilitators rep = [Some ''A'']"
    unfolding analyzeRows_Inr(1) [OF r] by (simp add: parse_file_one_failed newSet_def)
  have rk: "map fst (rankings rep) = [Some ''A'']"
    unfolding analyzeRows_Inr(4) [OF r] fs by (simp add: jsSort_def)
  have cs: "comparisons rep = []"
    unfolding analyzeRows_Inr(3) [OF r] fs by simp
  have tr: "totalRecords rep = 2"
    unfolding analyzeRows_Inr(6) [OF r] by (simp add: parse_file_one_failed)
  have fl: "successful rep = 1"
    unfolding analyzeRows_Inr(5) [OF r] by (simp add: parse_file_one_failed)
  have s1: "runPilot_summary results_one_failed ''A'' = Samples 1 1 1"
    by (simp add: runPilot_summary_def results_one_failed_def doFetch_failed_def)
  have s2: "runPilot_summary results_one_failed ''B'' = NoSuccessfulSamples"
    by (simp add: runPilot_summary_def results_one_failed_def doFetch_failed_def)
  show ?thesis
    unfolding analyzeData_def r using fst_facilitatorStats [OF r] write_results_one_failed s1 s2
    by (simp add: fs rk cs tr fl)
qed

text \<open>
  C4.  The claim: a sample with \<open>success = true\<close> and no facilitation time is left out
  of the facilitation statistics, and counted in the roundtrip statistics and in the
  number of successes.  The summary of the Solana pilot does this (\<open>runPilot_summary\<close>:
  4 successful, 3 with facilitation data, 4 roundtrip values); the Solana main driver
  drops such a result in its sampling loop, so that its summary counts 3, 3 and 3.  The
  analysis script does neither: \<open>analyzeData\<close> maps \<open>facilitationMs\<close> without removing
  \<open>null\<close>, so on the file that the pilot writes from the same four results the
  facilitation statistics have \<open>n = 4\<close>, and the absent value enters the mean as 0
  (82.5 instead of 110).  When the absent value lands on the median or a quartile,
  formatting it raises: for the file with the one such sample the analysis ends in a
  \<open>TypeError\<close>.
\<close>

theorem analyzeData_counts_sample_without_facilitationMs:
  "writeCsv results_missing_elapsed = file_missing_elapsed \<and>
   map_sum id successful (analyzeData file_missing_elapsed) = Inr 4 \<and>
   map_sum id (map (s_n \<circ> facilitation \<circ> snd) \<circ> facilitatorStats)
     (analyzeData file_missing_elapsed) = Inr [4] \<and>
   map_sum id (map (s_mean \<circ> facilitation \<circ> snd) \<circ> facilitatorStats)
     (analyzeData file_missing_elapsed) = Inr [Fin (165 / 2)] \<and>
   map_sum id (map (s_n \<circ> roundtrip \<circ> snd) \<circ> facilitatorStats)
     (analyzeData file_missing_elapsed) = Inr [4] \<and>
   runPilot_summary results_missing_elapsed ''A'' = Samples 4 3 4 \<and>
   runBenchmark_summary results_missing_elapsed ''A'' = Samples 3 3 3 \<and>
   analyzeData file_only_missing_elapsed = Inl TypeError"
proof -
  let ?rows = "parseCSV file_missing_elapsed"
  have sd: "filter success ?rows = ?rows" by (simp add: parse_file_missing_elapsed)
  have fs: "newSet (map facilitator ?rows) = [Some ''A'']"
    by (simp add: parse_file_missing_elapsed newSet_def)
  have ft: "map facilitationMs (filter (\<lambda>r. facilitator r = Some ''A'') ?rows)
      = [Null, Num (Fin 100), Num (Fin 110), Num (Fin 120)]"
    by (simp add: parse_file_missing_elapsed)
  have rt: "map roundtripMs (filter (\<lambda>r. facilitator r = Some ''A'') ?rows)
      = [Num (Fin 150), Num (Fin 160), Num (Fin 170), Num (Fin 180)]"
    by (simp add: parse_file_missing_elapsed)
  have e: "facilitatorEntry ?rows (Some ''A'') =
      \<lparr>facilitation = calculateStats [Null, Num (Fin 100), Num (Fin 110), Num (Fin 120)],
       roundtrip = calculateStats ([Num (Fin 150), Num (Fin 160), Num (Fin 170), Num (Fin 180)]),
       data = [Null, Num (Fin 100), Num (Fin 110), Num (Fin 120)]\<rparr>"
    unfolding facilitatorEntry_def Let_def ft rt by (rule refl)
  have pr: "printable (calculateStats ([Num (Fin 150), Num (Fin 160), Num (Fin 170), Num (Fin 180)]))"
    by (rule printable_calculateStats) simp
  obtain rep where r: "analyzeRows ?rows = Inr rep"
    using analyzeRows_completes_printable [of ?rows]
    unfolding sd fs by (simp add: e printable_missing_elapsed pr) blast
  have 1: "successful rep = 4"
    unfolding analyzeRows_Inr(5) [OF r] by (simp add: parse_file_missing_elapsed)
  have st: "facilitatorStats rep = [(Some ''A'', facilitatorEntry ?rows (Some ''A''))]"
    unfolding analyzeRows_Inr(2) [OF r] analyzeRows_Inr(1) [OF r] sd fs by simp
  have 2: "map (s_n \<circ> facilitation \<circ> snd) (facilitatorStats rep) = [4]"
    unfolding st e by simp
  have 3: "map (s_mean \<circ> facilitation \<circ> snd) (facilitatorStats rep) = [Fin (165 / 2)]"
    unfolding st e by (simp add: s_mean_calculateStats sumValues_def)
  have 4: "map (s_n \<circ> roundtrip \<circ> snd) (facilitatorStats rep) = [4]"
    unfolding st e by simp
  have 5: "runPilot_summary results_missing_elapsed ''A'' = Samples 4 3 4"
    by (simp add: runPilot_summary_def results_missing_elapsed_def)
  have 7: "runBenchmark_summary results_missing_elapsed ''A'' = Samples 3 3 3"
    by (simp add: runBenchmark_summary_def runBenchmark_results_def runPilot_summary_def
        results_missing_elapsed_def)
  have 6: "analyzeData file_only_missing_elapsed = Inl TypeError"
    by (simp add: analyzeData_def parse_file_only_missing_elapsed analyzeRows_def newSet_def
        facilitatorEntry_def not_printable_only_missing Let_def)
  show ?thesis
    unfolding analyzeData_def r
    using write_results_missing_elapsed 1 2 3 4 5 6 7
    by (simp add: analyzeData_def)
qed








text \<open>
  C8.  \<open>calculateStats\<close> is a total function, and on the empty list it returns the
  summary in which every field is zero.
\<close>

theorem calculateStats_empty:
  "calculateStats [] =
     \<lparr>s_n = 0, s_mean = Fin 0, s_std = Fin 0, s_median = Num (Fin 0),
      s_min = Num (Fin 0), s_max = Num (Fin 0), s_q1 = Num (Fin 0), s_q3 = Num (Fin 0),
      s_iqr = Fin 0, s_cv = Fin 0, s_se = Fin 0, s_ci95Lower = Fin 0,
      s_ci95Upper = Fin 0\<rparr>"
  by (simp add: calculateStats_def)

text \<open>
  C9 (as the code has it).  \<open>resultToCsvRow\<close> writes the fields as they are, and the
  file format has no quoting.  For every batch of results whose text fields hold neither
  a comma nor a line break, whose numbers are safe integers, and whose last error text
  does not end in white space, reading the written file with \<open>parseCSV\<close> gives back
  every field of every result, absent numbers and the success flag included.  (The
  commas of an error message are replaced by semicolons in \<open>doFetch\<close>, before the
  result exists; the error text of the result is reproduced as it is.)
\<close>

theorem parseCSV_writeCsv:
  assumes "\<forall>r\<in>set results. writable r"
    and "results \<noteq> [] \<longrightarrow> \<not> endsInWhiteSpace (BenchmarkResult.error (last results))"
  shows "parseCSV (writeCsv results) = map rowOfResult results"
proof -
  let ?ls = "headerLine # map csvLine results"
  let ?s = "join_str (CHR 0x0A) ?ls"
  have h0: "headerLine \<noteq> []" by (simp add: headerLine_def)
  have s0: "?s \<noteq> []" using h0 by (rule join_str_not_Nil)
  have "hd ?s = hd headerLine" using h0 by (rule hd_join_str)
  then have hd: "\<not> isWhiteSpace (hd ?s)" by (simp add: headerLine_def isWhiteSpace_def)
  from file_last_not_white [OF assms(2)]
  have l0: "last ?ls \<noteq> []" and lw: "\<not> isWhiteSpace (last (last ?ls))" by simp_all
  have "last ?s = last (last ?ls)" using l0 by (intro last_join_str) simp
  with lw have lst: "\<not> isWhiteSpace (last ?s)" by simp
  have tr: "trim (writeCsv results) = ?s"
    unfolding writeCsv_lines using s0 hd lst by (rule trim_line)
  have "\<forall>l\<in>set ?ls. CHR 0x0A \<notin> set l"
    using assms(1) csvLine_no_newline by (auto simp: headerLine_def)
  then have sp: "split_str (CHR 0x0A) ?s = ?ls" by (intro split_join) simp
  have "map parseLine (map csvLine results) = map rowOfResult results"
    using assms(1) by (simp add: parseLine_csvLine)
  then show ?thesis
    unfolding parseCSV_def Let_def tr sp by simp
qed

theorem parseCSV_writeCsv_witness:
  "parseCSV (writeCsv results_with_failure) =
    [\<lparr>timestamp = Some ''t1'', facilitator = Some ''A'', network = Some ''base'',
      sampleNum = Fin 1, facilitationMs = Num (Fin 100), roundtripMs = Num (Fin 200),
      success = True, error = ''''\<rparr>,
     \<lparr>timestamp = Some ''t1'', facilitator = Some ''B'', network = Some ''base'',
      sampleNum = Fin 1, facilitationMs = Null, roundtripMs = Null,
      success = False, error = ''timeout; no reply''\<rparr>]"
proof -
  have 1: "\<forall>r\<in>set results_with_failure. writable r"
    by (simp add: results_with_failure_def writable_def plainText_def isSafeInteger_def
        doFetch_failed_def escapeCommas_def)
  have 2: "results_with_failure \<noteq> [] \<longrightarrow>
      \<not> endsInWhiteSpace (BenchmarkResult.error (last results_with_failure))"
    by (simp add: results_with_failure_def endsInWhiteSpace_def isWhiteSpace_def
        doFetch_failed_def escapeCommas_def)
  show ?thesis
    unfolding parseCSV_writeCsv [OF 1 2]
    by (simp add: results_with_failure_def rowOfResult_def doFetch_failed_def escapeCommas_def)
qed

text \<open>
  The claim C9 as stated (every batch) does not hold.  An error message with a line break
  passes \<open>doFetch\<close> unchanged and is read back as two rows; an error text with a comma,
  written by \<open>resultToCsvRow\<close>, is read back cut at the comma; white space at the end
  of the last error text is lost to \<open>trim\<close>.
\<close>

theorem parseCSV_writeCsv_counterexample:
  "parseCSV (writeCsv [doFetch_failed ''t1'' ''A'' ''base'' 1 (''boom'' @ [CHR 0x0A] @ ''retry'')]) =
    [\<lparr>timestamp = Some ''t1'', facilitator = Some ''A'', network = Some ''base'',
      sampleNum = Fin 1, facilitationMs = Null, roundtripMs = Null,
      success = False, error = ''boom''\<rparr>,
     \<lparr>timestamp = Some ''retry'', facilitator = None, network = None,
      sampleNum = NaN, facilitationMs = Null, roundtripMs = Null,
      success = False, error = ''''\<rparr>] \<and>
   map error (parseCSV (writeCsv [result_with_comma])) = [''a''] \<and>
   map error (parseCSV (writeCsv [doFetch_failed ''t1'' ''A'' ''base'' 1 ''timeout ''])) = [''timeout'']"
  by (simp add: write_defs parse_defs result_with_comma_def)

text \<open>
  C10 (as the code has it).  Within the range of the format, \<open>normalCDF\<close> returns a
  value between 0 and 1 for every real argument.  For all groups, the p-value returned
  by \<open>welchTTest\<close> is \<open>NaN\<close> when the statistic \<open>t\<close> is \<open>NaN\<close>, and lies between 0
  and 1 otherwise.
\<close>

theorem normalCDFR_and_pValue_range:
  "inUnitInterval (normalCDFR binary64 (Fin z)) \<and>
   (let r = welchTTestR binary64 group1 group2
    in if w_t r = NaN then w_pValue r = NaN else inUnitInterval (w_pValue r))"
proof
  show "inUnitInterval (normalCDFR binary64 (Fin z))"
  proof (cases "jsLt (Fin z) (Fin 0)")
    case True
    then show ?thesis using normalCDFR_binary64_lower [of "Fin z"]
      by (auto simp: inUnitInterval_def)
  next
    case False
    then show ?thesis using normalCDFR_binary64_upper [of "Fin z"]
      by (auto simp: inUnitInterval_def)
  qed
  show "let r = welchTTestR binary64 group1 group2
    in if w_t r = NaN then w_pValue r = NaN else inUnitInterval (w_pValue r)"
    unfolding Let_def w_pValue_welchTTestR [of binary64 group1 group2]
    using pValue_binary64 [of "w_t (welchTTestR binary64 group1 group2)"]
    by (simp add: normalCDFR_NaN jsSubR_def)
qed

theorem normalCDFR_and_pValue_range_witness:
  "inUnitInterval (normalCDFR binary64 (Fin 0)) \<and>
   w_t (welchTTestR binary64 (numbers [1, 3]) (numbers [0, 0])) = Fin 2 \<and>
   inUnitInterval (w_pValue (welchTTestR binary64 (numbers [1, 3]) (numbers [0, 0])))"
proof -
  have t: "w_t (welchTTestR binary64 [Num (Fin 1), Num (Fin 3)] [Num (Fin 0), Num (Fin 0)])
      = Fin 2"
    by (simp add: welchTTestR_def Let_def sumValuesR_def sumSquaresR_def jsSubR_def
        Math_pow2R_def binary64_moderate)
  show ?thesis
    using normalCDFR_and_pValue_range [of 0 "numbers [1, 3]" "numbers [0, 0]"]
    by (simp add: t Let_def)
qed

text \<open>
  The claim C10 as stated (a p-value between 0 and 1 whenever both groups have at least
  two elements and the standard error is positive) does not hold.  For the groups
  \<open>[2^1023, 2^1023]\<close> and \<open>[0, 1]\<close> the sum of the first group overflows: its
  mean and its variance are \<open>Infinity\<close>, the standard error is \<open>Infinity\<close> (in exact
  arithmetic it is \<open>1 / 2\<close>), the statistic is \<open>Infinity / Infinity\<close>, and \<open>t\<close>, \<open>df\<close>
  and the p-value are \<open>NaN\<close>.
\<close>

theorem welchTTestR_overflow_counterexample:
  "welchTTestR binary64 (numbers [2 ^ 1023, 2 ^ 1023]) (numbers [0, 1]) =
     \<lparr>w_t = NaN, w_df = NaN, w_pValue = NaN\<rparr> \<and>
   welchTTestR_se binary64 (numbers [2 ^ 1023, 2 ^ 1023]) (numbers [0, 1]) = PInf \<and>
   spec_se [2 ^ 1023, 2 ^ 1023] [0, 1] = 1 / 2"
proof -
  have 2: "spec_se [h, h] [0, 1] = 1 / 2" for h
    by (simp add: spec_se_def spec_variance_def spec_mean_def power2_eq_square real_sqrt_divide)
  show ?thesis
    using welchTTestR_overflow [OF huge_exact huge_overflow] 2 [of "2 ^ 1023"]
    by (intro conjI)
qed

end
